theory Spec2Isabelle
  imports Complex_Main
begin

section \<open>The cost canary handler of \<open>src/bin/costCanary.ts\<close>\<close>

text \<open>
  The handler is one asynchronous function. Its named constants
  (\<open>response\<close>, \<open>flattenArray\<close>, \<open>instances\<close>, \<open>instanceCountByType\<close>,
  \<open>priceList\<close>, \<open>findPrice\<close>, \<open>instancesWithPrices\<close>, \<open>timeDifference\<close>,
  \<open>totalCostPerInstanceFromLaunch\<close>, \<open>totalCost\<close>) are embedded one by one under
  their own names and composed in \<open>handler\<close>.
\<close>

subsection \<open>Nested arrays and \<open>flattenArray\<close>\<close>

text \<open>
  A JavaScript array whose elements are either arrays again (\<open>Array.isArray\<close>) or
  anything else.
\<close>

datatype 'a nested = Item 'a | Nested "'a nested list"

text \<open>
  \<^verbatim>\<open>
  const flattenArray = (ary) =>
    ary.reduce((a, b) => a.concat(Array.isArray(b) ? flattenArray(b) : b), [])
  \<close>
  \<open>reduce\<close> with the initial value \<open>[]\<close> is a left fold; \<open>a.concat(x)\<close> appends the
  elements of \<open>x\<close> when \<open>x\<close> is an array and \<open>x\<close> itself otherwise.
\<close>

fun flattenArray :: "'a nested list \<Rightarrow> 'a list"
  and flattenStep :: "'a list \<Rightarrow> 'a nested \<Rightarrow> 'a list" where
  "flattenArray ary = foldl flattenStep [] ary"
| "flattenStep a (Nested b) = a @ flattenArray b"
| "flattenStep a (Item b) = a @ [b]"

text \<open>The left-to-right depth-first sequence of the non-array elements.\<close>

fun leaves :: "'a nested \<Rightarrow> 'a list" where
  "leaves (Item x) = [x]"
| "leaves (Nested xs) = concat (map leaves xs)"

subsection \<open>Values and numbers\<close>

text \<open>
  The values the SDK hands to the handler: \<open>undefined\<close> and the values of a parsed
  JSON document. An object is the list of its properties in the order in which
  \<open>JSON.stringify\<close> and \<open>for ... in\<close> enumerate them; its keys are distinct.
\<close>

datatype jsvalue =
    JUndefined
  | JNull
  | JBool bool
  | JNum rat
  | JStr string
  | JArr "jsvalue list"
  | JObj "(string \<times> jsvalue) list"

text \<open>
  A JavaScript number is \<open>NaN\<close>, an infinity or a finite value. A finite value
  is held as the rational it denotes: every finite double is one. The sign of zero
  is left out.
\<close>

datatype jsnum = NaN | PosInf | NegInf | Fin rat

datatype error = TypeError | SyntaxError string

text \<open>\<open>ToBoolean\<close>.\<close>

fun truthy :: "jsvalue \<Rightarrow> bool" where
  "truthy JUndefined = False"
| "truthy JNull = False"
| "truthy (JBool b) = b"
| "truthy (JNum r) = (r \<noteq> 0)"
| "truthy (JStr s) = (s \<noteq> [])"
| "truthy (JArr xs) = True"
| "truthy (JObj kvs) = True"

text \<open>
  Reading the property \<open>k\<close> of a value that is not \<open>null\<close> or \<open>undefined\<close>, and
  \<open>v?.k\<close> for any value. The name \<open>k\<close> is not a built-in member of strings, arrays
  or \<open>Object.prototype\<close> (the handler only reads \<open>'USD'\<close>), so only an object's
  own property answers.
\<close>

fun getProp :: "jsvalue \<Rightarrow> string \<Rightarrow> jsvalue" where
  "getProp (JObj kvs) k = (case map_of kvs k of None \<Rightarrow> JUndefined | Some v \<Rightarrow> v)"
| "getProp v k = JUndefined"

subsection \<open>Decimal digits\<close>

definition isDigit :: "char \<Rightarrow> bool" where
  "isDigit c = (48 \<le> (of_char c :: nat) \<and> (of_char c :: nat) \<le> 57)"

definition digitVal :: "char \<Rightarrow> nat" where
  "digitVal c = of_char c - 48"

definition digitChar :: "nat \<Rightarrow> char" where
  "digitChar d = ''0123456789'' ! d"

definition parseNat :: "string \<Rightarrow> nat" where
  "parseNat ds = foldl (\<lambda>a c. 10 * a + digitVal c) 0 ds"

fun digitsOf :: "nat \<Rightarrow> string" where
  "digitsOf n = (if n < 10 then [digitChar n] else digitsOf (n div 10) @ [digitChar (n mod 10)])"

declare digitsOf.simps [simp del]

definition pow10 :: "int \<Rightarrow> rat" where
  "pow10 e = (if 0 \<le> e then 10 ^ nat e else 1 / 10 ^ nat (- e))"

text \<open>An exponent part \<open>e\<close>, \<open>E\<close> with an optional sign and digits, or nothing.\<close>

fun parseExponent :: "string \<Rightarrow> int option" where
  "parseExponent [] = Some 0"
| "parseExponent (c # r) =
     (if c = CHR ''e'' \<or> c = CHR ''E'' then
        (let ds = (case r of [] \<Rightarrow> [] | s # t \<Rightarrow> if s = CHR ''+'' \<or> s = CHR ''-'' then t else r);
             neg = (case r of [] \<Rightarrow> False | s # t \<Rightarrow> s = CHR ''-'')
         in if ds \<noteq> [] \<and> list_all isDigit ds
            then Some (if neg then - int (parseNat ds) else int (parseNat ds))
            else None)
      else None)"

subsection \<open>\<open>ToNumber\<close>\<close>

text \<open>
  \<open>StringToNumber\<close> of ECMAScript on ASCII text: surrounding white space is dropped,
  the empty text is 0, then a signed decimal literal (digits, fraction, exponent,
  \<open>Infinity\<close>) or an unsigned hexadecimal, octal or binary literal; anything else is
  \<open>NaN\<close>.
\<close>

definition isWhite :: "char \<Rightarrow> bool" where
  "isWhite c = (c \<in> set [CHR 0x09, CHR 0x0A, CHR 0x0B, CHR 0x0C, CHR 0x0D, CHR 0x20])"

definition trim :: "string \<Rightarrow> string" where
  "trim s = rev (dropWhile isWhite (rev (dropWhile isWhite s)))"

definition parseUnsignedDecimal :: "string \<Rightarrow> jsnum" where
  "parseUnsignedDecimal s =
     (if s = ''Infinity'' then PosInf
      else
        (let ip = takeWhile isDigit s;
             r1 = dropWhile isDigit s;
             dot = (r1 \<noteq> [] \<and> hd r1 = CHR ''.'');
             fp = (if dot then takeWhile isDigit (tl r1) else []);
             r2 = (if dot then dropWhile isDigit (tl r1) else r1)
         in if ip = [] \<and> fp = [] then NaN
            else (case parseExponent r2 of
                    None \<Rightarrow> NaN
                  | Some e \<Rightarrow>
                      Fin ((of_nat (parseNat ip) + of_nat (parseNat fp) / 10 ^ length fp)
                           * pow10 e))))"

definition radixVal :: "char \<Rightarrow> nat" where
  "radixVal c =
     (let n = (of_char c :: nat)
      in if 48 \<le> n \<and> n \<le> 57 then n - 48
         else if 97 \<le> n \<and> n \<le> 102 then n - 87
         else if 65 \<le> n \<and> n \<le> 70 then n - 55
         else 16)"

definition parseRadix :: "nat \<Rightarrow> string \<Rightarrow> jsnum" where
  "parseRadix b ds =
     (if ds \<noteq> [] \<and> list_all (\<lambda>c. radixVal c < b) ds
      then Fin (of_nat (foldl (\<lambda>a c. b * a + radixVal c) 0 ds))
      else NaN)"

fun jsNeg :: "jsnum \<Rightarrow> jsnum" where
  "jsNeg NaN = NaN"
| "jsNeg PosInf = NegInf"
| "jsNeg NegInf = PosInf"
| "jsNeg (Fin r) = Fin (- r)"

definition radixOf :: "char \<Rightarrow> nat option" where
  "radixOf c =
     (if c = CHR ''x'' \<or> c = CHR ''X'' then Some 16
      else if c = CHR ''o'' \<or> c = CHR ''O'' then Some 8
      else if c = CHR ''b'' \<or> c = CHR ''B'' then Some 2
      else None)"

definition stringToNumber :: "string \<Rightarrow> jsnum" where
  "stringToNumber s =
     (case trim s of
        [] \<Rightarrow> Fin 0
      | c # r \<Rightarrow>
          if c = CHR ''+'' then parseUnsignedDecimal r
          else if c = CHR ''-'' then jsNeg (parseUnsignedDecimal r)
          else if c = CHR ''0'' \<and> r \<noteq> [] \<and> radixOf (hd r) \<noteq> None
               then parseRadix (the (radixOf (hd r))) (tl r)
          else parseUnsignedDecimal (c # r))"

text \<open>
  \<open>ToNumber\<close>, as the operator \<open>/\<close> applies it to its left operand. An array is
  converted through its text, the texts of its elements joined by commas: the empty
  array gives the empty text, a one-element array the text of its element (empty
  for \<open>null\<close> and \<open>undefined\<close>), and more elements a text with a comma, which is not
  a number. A plain object gives the text \<open>[object Object]\<close>.
\<close>

fun toNumber :: "jsvalue \<Rightarrow> jsnum" where
  "toNumber JUndefined = NaN"
| "toNumber JNull = Fin 0"
| "toNumber (JBool b) = Fin (if b then 1 else 0)"
| "toNumber (JNum r) = Fin r"
| "toNumber (JStr s) = stringToNumber s"
| "toNumber (JObj kvs) = NaN"
| "toNumber (JArr []) = Fin 0"
| "toNumber (JArr [JUndefined]) = Fin 0"
| "toNumber (JArr [JNull]) = Fin 0"
| "toNumber (JArr [JBool b]) = NaN"
| "toNumber (JArr [JNum r]) = Fin r"
| "toNumber (JArr [JStr s]) = stringToNumber s"
| "toNumber (JArr [JObj kvs]) = NaN"
| "toNumber (JArr [JArr xs]) = toNumber (JArr xs)"
| "toNumber (JArr (x # y # zs)) = NaN"

subsection \<open>Doubles\<close>

text \<open>
  The finite values of a JavaScript number are the doubles of IEEE 754: 53
  significant binary digits, and a least quantum of \<open>2^-1074\<close>. \<open>toDouble\<close> is the
  rounding that an arithmetic operator applies to its exact result: to the nearest
  double, and to the one with an even significand when two are equally near. The
  overflow to an infinity, above \<open>2^1024\<close>, is left out.

  \<open>bits n\<close> is the number of binary digits of \<open>n\<close>, and \<open>exponentOf x\<close>, for a
  positive \<open>x\<close>, the exponent \<open>e\<close> with \<open>2^e \<le> x < 2^(e+1)\<close>.
\<close>

fun bits :: "nat \<Rightarrow> nat" where
  "bits n = (if n = 0 then 0 else Suc (bits (n div 2)))"

declare bits.simps [simp del]

definition pow2 :: "int \<Rightarrow> rat" where
  "pow2 e = (if 0 \<le> e then 2 ^ nat e else 1 / 2 ^ nat (- e))"

definition exponentOf :: "rat \<Rightarrow> int" where
  "exponentOf x =
     (if 1 \<le> x then int (bits (nat \<lfloor>x\<rfloor>)) - 1
      else - int (bits (nat (\<lceil>1 / x\<rceil> - 1))))"

definition roundHalfEven :: "rat \<Rightarrow> int" where
  "roundHalfEven y =
     (let n = \<lfloor>y\<rfloor>; r = y - of_int n
      in if r < 1 / 2 then n
         else if 1 / 2 < r then n + 1
         else if even n then n else n + 1)"

definition toDouble :: "rat \<Rightarrow> rat" where
  "toDouble x =
     (if x = 0 then 0
      else
        (let quantum = pow2 (max (exponentOf \<bar>x\<bar>) (- 1022) - 52)
         in (if x < 0 then - 1 else 1) * (of_int (roundHalfEven (\<bar>x\<bar> / quantum)) * quantum)))"

subsection \<open>Arithmetic\<close>

text \<open>
  \<open>x / c\<close> for a finite positive literal \<open>c\<close> (the handler divides by 60), and
  \<open>x * y\<close>: \<open>NaN\<close> is absorbing, and an infinity times zero is \<open>NaN\<close>. Quotient
  and product of finite values are the exact ones; the double that JavaScript
  computes lies within a few units in the last place of them.
\<close>

fun jsDiv :: "jsnum \<Rightarrow> rat \<Rightarrow> jsnum" where
  "jsDiv (Fin r) c = Fin (r / c)"
| "jsDiv x c = x"

fun jsMul :: "jsnum \<Rightarrow> jsnum \<Rightarrow> jsnum" where
  "jsMul NaN y = NaN"
| "jsMul x NaN = NaN"
| "jsMul (Fin a) (Fin b) = Fin (a * b)"
| "jsMul (Fin a) PosInf = (if a = 0 then NaN else if 0 < a then PosInf else NegInf)"
| "jsMul (Fin a) NegInf = (if a = 0 then NaN else if 0 < a then NegInf else PosInf)"
| "jsMul PosInf (Fin b) = (if b = 0 then NaN else if 0 < b then PosInf else NegInf)"
| "jsMul NegInf (Fin b) = (if b = 0 then NaN else if 0 < b then NegInf else PosInf)"
| "jsMul PosInf PosInf = PosInf"
| "jsMul PosInf NegInf = NegInf"
| "jsMul NegInf PosInf = NegInf"
| "jsMul NegInf NegInf = PosInf"

text \<open>
  \<open>x + y\<close> on numbers: \<open>NaN\<close> is absorbing, opposite infinities give \<open>NaN\<close>, and
  the sum of two finite values is rounded to the nearest double, as the addition
  of doubles is; which hundredth \<open>toFixed(2)\<close> prints can depend on it.
\<close>

fun jsAdd :: "jsnum \<Rightarrow> jsnum \<Rightarrow> jsnum" where
  "jsAdd NaN y = NaN"
| "jsAdd x NaN = NaN"
| "jsAdd (Fin a) (Fin b) = Fin (toDouble (a + b))"
| "jsAdd PosInf NegInf = NaN"
| "jsAdd NegInf PosInf = NaN"
| "jsAdd PosInf y = PosInf"
| "jsAdd NegInf y = NegInf"
| "jsAdd (Fin a) y = y"

text \<open>
  \<open>reduce((accumulator, value) => accumulator + value, 0)\<close> on finite values: the
  running sum, rounded at every addition.
\<close>

definition doubleSum :: "rat list \<Rightarrow> rat" where
  "doubleSum costs = foldl (\<lambda>accumulator value. toDouble (accumulator + value)) 0 costs"

subsection \<open>\<open>toFixed\<close> and \<open>JSON.parse\<close>\<close>

text \<open>
  \<open>Number.prototype.toFixed(f)\<close>. For a finite \<open>x\<close> the sign is split off, \<open>n\<close> is
  the integer for which \<open>n / 10^f - x\<close> is closest to zero, the larger one of two, its
  digits are padded with zeros to \<open>f + 1\<close> places and the point is set before the
  last \<open>f\<close>. At \<open>10^21\<close> and above JavaScript answers the exponent text of \<open>x\<close>
  instead, which \<open>JSON.parse\<close> reads back as \<open>x\<close>; a double of that size is a whole
  number, and the digit text built here denotes that same number.
\<close>

fun toFixed :: "nat \<Rightarrow> jsnum \<Rightarrow> string" where
  "toFixed f NaN = ''NaN''"
| "toFixed f PosInf = ''Infinity''"
| "toFixed f NegInf = ''-Infinity''"
| "toFixed f (Fin r) =
     (let s = (if r < 0 then ''-'' else []);
          x = \<bar>r\<bar>;
          n = nat \<lfloor>x * 10 ^ f + 1 / 2\<rfloor>;
          m0 = digitsOf n;
          m = (if length m0 \<le> f then replicate (f + 1 - length m0) (CHR ''0'') @ m0 else m0);
          k = length m
      in s @ (if f = 0 then m else take (k - f) m @ ''.'' @ drop (k - f) m))"

declare toFixed.simps(4) [simp del]

text \<open>
  \<open>JSON.parse\<close> on the texts \<open>toFixed\<close> returns: a JSON number (an optional minus, an
  integer part without a leading zero unless it is \<open>0\<close>, an optional fraction with
  at least one digit, an optional exponent, white space around it) denotes its
  value, and \<open>NaN\<close>, \<open>Infinity\<close> and \<open>-Infinity\<close> are no JSON at all: \<open>SyntaxError\<close>,
  which carries the text that was refused. Other JSON texts (strings, arrays,
  objects, literals) never reach this call.
\<close>

definition isJsonWhite :: "char \<Rightarrow> bool" where
  "isJsonWhite c = (c \<in> set [CHR 0x20, CHR 0x09, CHR 0x0A, CHR 0x0D])"

definition JSON_parse :: "string \<Rightarrow> error + rat" where
  "JSON_parse text =
     (let t = rev (dropWhile isJsonWhite (rev (dropWhile isJsonWhite text)));
          neg = (t \<noteq> [] \<and> hd t = CHR ''-'');
          u = (if neg then tl t else t);
          ip = takeWhile isDigit u;
          r1 = dropWhile isDigit u;
          dot = (r1 \<noteq> [] \<and> hd r1 = CHR ''.'');
          fp = (if dot then takeWhile isDigit (tl r1) else []);
          r2 = (if dot then dropWhile isDigit (tl r1) else r1)
      in if ip \<noteq> [] \<and> (ip = ''0'' \<or> hd ip \<noteq> CHR ''0'') \<and> (if dot then fp \<noteq> [] else True)
         then (case parseExponent r2 of
                 None \<Rightarrow> Inl (SyntaxError text)
               | Some e \<Rightarrow>
                   Inr ((if neg then - 1 else 1)
                        * ((of_nat (parseNat ip) + of_nat (parseNat fp) / 10 ^ length fp)
                           * pow10 e)))
         else Inl (SyntaxError text))"

subsection \<open>\<open>findPrice\<close>\<close>

text \<open>
  \<^verbatim>\<open>
  const findPrice = (entireObj, keyToFind) => {
    let foundObj
    JSON.stringify(entireObj, (_, nestedValue) => {
      if (nestedValue && nestedValue[keyToFind]) { foundObj = nestedValue }
      return nestedValue
    })
    return foundObj?.USD
  }
  \<close>
  The replacer is the only part of \<open>JSON.stringify\<close> that is observed; it assigns
  \<open>foundObj\<close> and hands every value back unchanged. \<open>replacer\<close> is that assignment,
  as a function from the old \<open>foundObj\<close> to the new one.
\<close>

definition replacer :: "string \<Rightarrow> jsvalue \<Rightarrow> jsvalue \<Rightarrow> jsvalue" where
  "replacer keyToFind foundObj nestedValue =
     (if truthy nestedValue \<and> truthy (getProp nestedValue keyToFind)
      then nestedValue else foundObj)"

text \<open>
  \<open>JSON.stringify\<close> calls the replacer on a value first (on \<open>entireObj\<close> itself with
  the key \<open>""\<close>), then serialises what it returned: the elements of an array by
  index, the properties of an object in their order, each by the same procedure.
  The three functions thread \<open>foundObj\<close> through those calls.
\<close>

fun serializeProperty :: "string \<Rightarrow> jsvalue \<Rightarrow> jsvalue \<Rightarrow> jsvalue"
  and serializeArray :: "string \<Rightarrow> jsvalue \<Rightarrow> jsvalue list \<Rightarrow> jsvalue"
  and serializeObject :: "string \<Rightarrow> jsvalue \<Rightarrow> (string \<times> jsvalue) list \<Rightarrow> jsvalue" where
  "serializeProperty k foundObj (JArr xs) = serializeArray k (replacer k foundObj (JArr xs)) xs"
| "serializeProperty k foundObj (JObj kvs) = serializeObject k (replacer k foundObj (JObj kvs)) kvs"
| "serializeProperty k foundObj v = replacer k foundObj v"
| "serializeArray k foundObj [] = foundObj"
| "serializeArray k foundObj (x # xs) = serializeArray k (serializeProperty k foundObj x) xs"
| "serializeObject k foundObj [] = foundObj"
| "serializeObject k foundObj ((n, x) # kvs) = serializeObject k (serializeProperty k foundObj x) kvs"

definition findPrice :: "jsvalue \<Rightarrow> string \<Rightarrow> jsvalue" where
  "findPrice entireObj keyToFind = getProp (serializeProperty keyToFind JUndefined entireObj) ''USD''"

text \<open>
  The traversal in the specification's words: every value of the document in
  depth-first order, a value before its parts, object properties in their order,
  array elements by index.
\<close>

fun visitOrder :: "jsvalue \<Rightarrow> jsvalue list"
  and visitArray :: "jsvalue list \<Rightarrow> jsvalue list"
  and visitObject :: "(string \<times> jsvalue) list \<Rightarrow> jsvalue list" where
  "visitOrder (JArr xs) = JArr xs # visitArray xs"
| "visitOrder (JObj kvs) = JObj kvs # visitObject kvs"
| "visitOrder v = [v]"
| "visitArray [] = []"
| "visitArray (x # xs) = visitOrder x @ visitArray xs"
| "visitObject [] = []"
| "visitObject ((n, x) # kvs) = visitOrder x @ visitObject kvs"

text \<open>The values that contain the key: the ones the replacer's test accepts.\<close>

definition containsKey :: "string \<Rightarrow> jsvalue \<Rightarrow> bool" where
  "containsKey k v = (truthy v \<and> truthy (getProp v k))"

text \<open>
  The extraction as the specification words it: the rate of the first value in
  traversal order that contains the currency key.
\<close>

definition findPrice_first :: "jsvalue \<Rightarrow> string \<Rightarrow> jsvalue" where
  "findPrice_first entireObj keyToFind =
     (case filter (containsKey keyToFind) (visitOrder entireObj) of
        [] \<Rightarrow> JUndefined
      | m # ms \<Rightarrow> getProp m ''USD'')"

text \<open>The same with the last such value.\<close>

definition findPrice_last :: "jsvalue \<Rightarrow> string \<Rightarrow> jsvalue" where
  "findPrice_last entireObj keyToFind =
     (case rev (filter (containsKey keyToFind) (visitOrder entireObj)) of
        [] \<Rightarrow> JUndefined
      | m # ms \<Rightarrow> getProp m ''USD'')"

subsection \<open>The providers and the trace of an invocation\<close>

text \<open>
  What \<open>ec2.describeInstances\<close> takes and answers. The handler reads
  \<open>Reservations\<close> and \<open>Instances\<close> through \<open>?.\<close>, so both may be absent; it reads
  \<open>InstanceType\<close> and \<open>LaunchTime\<close> of an instance directly. \<open>LaunchTime\<close> is a
  \<open>Date\<close>, held as its \<open>getTime()\<close>: milliseconds since the epoch. The request the
  handler builds has \<open>Filters\<close> only; \<open>MaxResults\<close> and \<open>NextTokenParam\<close> (the
  request's \<open>NextToken\<close>) are the paging fields of the SDK's request type, which it
  leaves absent. \<open>NextToken\<close> of a result says that a further page exists.
\<close>

record ec2instance =
  InstanceId :: string
  InstanceType :: string
  LaunchTime :: int

record instanceWithPrice = ec2instance +
  Price :: jsvalue

record reservation =
  Instances :: "ec2instance list option"

record describeInstancesResult =
  Reservations :: "reservation list option"
  NextToken :: "string option"

record requestFilter =
  Name :: string
  Values :: "string list"

record describeInstancesRequest =
  Filters :: "requestFilter list"
  MaxResults :: "nat option"
  NextTokenParam :: "string option"

record priceEntry =
  instanceType :: string
  price :: jsvalue

text \<open>
  All that an invocation reads: the two environment variables, the answer of
  \<open>ec2.describeInstances\<close> to a request, the \<open>PriceList\<close> (or \<open>undefined\<close>) of the
  answer of \<open>pricing.getProducts\<close> to the request for an instance type (the other
  filter fields of that request are constants), and the clock. Every \<open>new Date()\<close>
  of one invocation reads the same instant \<open>now\<close>. The three services answer: a
  rejected promise is outside this model, and so are the \<open>console.log\<close> lines.
\<close>

record world =
  TAG_KEY :: "string option"
  TAG_VALUE :: "string option"
  describeInstances :: "describeInstancesRequest \<Rightarrow> describeInstancesResult"
  getProducts :: "string \<Rightarrow> jsvalue"
  now :: int

text \<open>
  All that an invocation does: the requests sent to EC2, the instance types asked
  of the pricing catalog, the \<open>Value\<close> of each \<open>putMetricData\<close> call, in order, and
  the error thrown, if any.
\<close>

record outcome =
  ec2Requests :: "describeInstancesRequest list"
  pricingQueries :: "string list"
  metricData :: "rat list"
  failure :: "error option"

subsection \<open>The handler\<close>

text \<open>\<open>process.env.X || d\<close>: an unset or empty variable gives the default.\<close>

definition orDefault :: "string option \<Rightarrow> string \<Rightarrow> string" where
  "orDefault v d = (case v of None \<Rightarrow> d | Some s \<Rightarrow> if s = [] then d else s)"

text \<open>
  \<^verbatim>\<open>
  const response = (await ec2.describeInstances({...}).promise())
    .Reservations?.map((reservation) =>
      reservation.Instances?.map((instance) => instance))
  \<close>
  \<open>None\<close> stands for \<open>undefined\<close>: the whole \<open>response\<close> when \<open>Reservations\<close> is
  absent, an element of it when a reservation has no \<open>Instances\<close>.
\<close>

definition response :: "describeInstancesResult \<Rightarrow> ec2instance option nested list option" where
  "response r =
     map_option
       (map (\<lambda>reservation.
          case Instances reservation of
            None \<Rightarrow> Item None
          | Some is \<Rightarrow> Nested (map (\<lambda>instance. Item (Some instance)) is)))
       (Reservations r)"

text \<open>
  \<open>const instances = flattenArray(response)\<close>; \<open>undefined.reduce\<close> throws a
  \<open>TypeError\<close>.
\<close>

definition instances :: "describeInstancesResult \<Rightarrow> error + ec2instance option list" where
  "instances r = (case response r of None \<Rightarrow> Inl TypeError | Some ary \<Rightarrow> Inr (flattenArray ary))"

text \<open>
  \<^verbatim>\<open>
  instances.forEach((instance) => {
    instance.InstanceType in instanceCountByType
      ? instanceCountByType[instance.InstanceType]++
      : (instanceCountByType[instance.InstanceType] = 1)
  })
  \<close>
  The object is the list of its keys with their counts, a new key at the end:
  the order in which \<open>for ... in\<close> enumerates keys that are names of instance
  types (no array index, which would come first, and no member of
  \<open>Object.prototype\<close>). Reading \<open>InstanceType\<close> of \<open>undefined\<close> throws a \<open>TypeError\<close>.
\<close>

fun countType :: "string \<Rightarrow> (string \<times> nat) list \<Rightarrow> (string \<times> nat) list" where
  "countType t [] = [(t, 1)]"
| "countType t ((k, c) # kcs) = (if k = t then (k, c + 1) # kcs else (k, c) # countType t kcs)"

fun countInstances :: "(string \<times> nat) list \<Rightarrow> ec2instance option list \<Rightarrow> error + (string \<times> nat) list" where
  "countInstances counts [] = Inr counts"
| "countInstances counts (None # is) = Inl TypeError"
| "countInstances counts (Some instance # is) = countInstances (countType (InstanceType instance) counts) is"

definition instanceCountByType :: "ec2instance option list \<Rightarrow> error + (string \<times> nat) list" where
  "instanceCountByType is = countInstances [] is"

text \<open>
  The loop \<open>for (const instanceType in instanceCountByType)\<close>: one \<open>getProducts\<close>
  call per key, and one entry pushed to \<open>priceList\<close>.
\<close>

definition priceList :: "(string \<Rightarrow> jsvalue) \<Rightarrow> string list \<Rightarrow> priceEntry list" where
  "priceList catalog types =
     map (\<lambda>t. \<lparr>instanceType = t, price = findPrice (catalog t) ''USD''\<rparr>) types"

text \<open>
  \<^verbatim>\<open>
  const instancesWithPrices = instances.map((instance) => {
    const instanceType = instance.InstanceType
    const priceObject = priceList.find((price) => price.instanceType == instanceType)
    return { ...instance, Price: priceObject.price }
  })
  \<close>
  Reading \<open>price\<close> of \<open>undefined\<close>, when \<open>find\<close> finds nothing, throws a
  \<open>TypeError\<close>.
\<close>

fun instancesWithPrices :: "ec2instance option list \<Rightarrow> priceEntry list \<Rightarrow> error + instanceWithPrice list" where
  "instancesWithPrices [] pl = Inr []"
| "instancesWithPrices (None # is) pl = Inl TypeError"
| "instancesWithPrices (Some instance # is) pl =
     (case find (\<lambda>p. instanceType p = InstanceType instance) pl of
        None \<Rightarrow> Inl TypeError
      | Some priceObject \<Rightarrow>
          (case instancesWithPrices is pl of
             Inl e \<Rightarrow> Inl e
           | Inr rest \<Rightarrow>
               Inr (\<lparr>InstanceId = InstanceId instance, InstanceType = InstanceType instance,
                     LaunchTime = LaunchTime instance, Price = price priceObject\<rparr> # rest)))"

text \<open>
  \<^verbatim>\<open>
  const timeDifference = (date1, date2) =>
    Math.floor((date2.getTime() - date1.getTime()) / 1000)
  \<close>
\<close>

definition timeDifference :: "int \<Rightarrow> int \<Rightarrow> int" where
  "timeDifference date1 date2 = (date2 - date1) div 1000"

text \<open>
  \<^verbatim>\<open>
  (instance.Price / 60 / 60) * timeDifference(new Date(instance.LaunchTime), new Date())
  \<close>
\<close>

definition costFromLaunch :: "int \<Rightarrow> instanceWithPrice \<Rightarrow> jsnum" where
  "costFromLaunch t instance =
     jsMul (jsDiv (jsDiv (toNumber (Price instance)) 60) 60)
           (Fin (of_int (timeDifference (LaunchTime instance) t)))"

definition totalCostPerInstanceFromLaunch :: "int \<Rightarrow> instanceWithPrice list \<Rightarrow> jsnum list" where
  "totalCostPerInstanceFromLaunch t priced = map (costFromLaunch t) priced"

text \<open>
  \<^verbatim>\<open>
  const totalCost = totalCostPerInstanceFromLaunch
    .reduce((accumulator, value) => accumulator + value, 0)
    .toFixed(2)
  \<close>
\<close>

definition totalCost :: "jsnum list \<Rightarrow> string" where
  "totalCost costs = toFixed 2 (foldl jsAdd (Fin 0) costs)"

text \<open>
  The handler: \<open>request\<close> is the parameter object of its \<open>describeInstances\<close>
  call; then each stage in the order of the source, the trace extended at every
  call of a service, and the first error thrown ends the invocation. The one
  \<open>putMetricData\<close> call carries \<open>Value: JSON.parse(totalCost)\<close>.
\<close>

definition request :: "world \<Rightarrow> describeInstancesRequest" where
  "request w =
     (let tagKey = orDefault (TAG_KEY w) ''tracking'';
          tagValue = orDefault (TAG_VALUE w) ''CC''
      in \<lparr>Filters = [\<lparr>Name = ''tag:'' @ tagKey, Values = [tagValue]\<rparr>,
                     \<lparr>Name = ''instance-state-name'', Values = [''running'']\<rparr>],
          MaxResults = None, NextTokenParam = None\<rparr>)"

definition handler :: "world \<Rightarrow> outcome" where
  "handler w =
     (let started = \<lparr>ec2Requests = [request w], pricingQueries = [], metricData = [], failure = None\<rparr>
      in case instances (describeInstances w (request w)) of
           Inl e \<Rightarrow> started\<lparr>failure := Some e\<rparr>
         | Inr is \<Rightarrow>
             (case instanceCountByType is of
                Inl e \<Rightarrow> started\<lparr>failure := Some e\<rparr>
              | Inr counts \<Rightarrow>
                  (let types = map fst counts;
                       priced = started\<lparr>pricingQueries := types\<rparr>
                   in case instancesWithPrices is (priceList (getProducts w) types) of
                        Inl e \<Rightarrow> priced\<lparr>failure := Some e\<rparr>
                      | Inr withPrices \<Rightarrow>
                          (case JSON_parse (totalCost (totalCostPerInstanceFromLaunch (now w) withPrices)) of
                             Inl e \<Rightarrow> priced\<lparr>failure := Some e\<rparr>
                           | Inr v \<Rightarrow> priced\<lparr>metricData := [v]\<rparr>))))"

text \<open>
  Two abbreviations for the statements below. \<open>countTypes\<close> is the loop of
  \<open>instanceCountByType\<close> on instances that are all defined; \<open>pricedInstance\<close> is
  the object \<open>instancesWithPrices\<close> builds for an instance whose type has an entry
  in \<open>priceList\<close>.
\<close>

definition countTypes :: "ec2instance list \<Rightarrow> (string \<times> nat) list" where
  "countTypes is = foldl (\<lambda>counts instance. countType (InstanceType instance) counts) [] is"

definition pricedInstance :: "(string \<Rightarrow> jsvalue) \<Rightarrow> ec2instance \<Rightarrow> instanceWithPrice" where
  "pricedInstance catalog instance =
     \<lparr>InstanceId = InstanceId instance, InstanceType = InstanceType instance,
      LaunchTime = LaunchTime instance,
      Price = findPrice (catalog (InstanceType instance)) ''USD''\<rparr>"

subsection \<open>Statements of the specification, and inputs for the examples\<close>


text \<open>
  Rounding to \<open>f\<close> decimal places as the specification words it: to the nearest
  multiple of \<open>10^-f\<close>, a half away from zero.
\<close>

definition roundHalf :: "nat \<Rightarrow> rat \<Rightarrow> rat" where
  "roundHalf f x = (if x < 0 then - 1 else 1) * (of_int \<lfloor>\<bar>x\<bar> * 10 ^ f + 1 / 2\<rfloor> / 10 ^ f)"

text \<open>
  An answer of EC2 that is one page of reservations with their instances; a
  world whose EC2 gives that answer to every request; a price list of one document
  with one rate.
\<close>

definition onePage :: "ec2instance list list \<Rightarrow> describeInstancesResult" where
  "onePage groups = \<lparr>Reservations = Some (map (\<lambda>is. \<lparr>Instances = Some is\<rparr>) groups), NextToken = None\<rparr>"

definition fleet :: "ec2instance list list \<Rightarrow> (string \<Rightarrow> jsvalue) \<Rightarrow> int \<Rightarrow> world" where
  "fleet groups catalog t =
     \<lparr>TAG_KEY = None, TAG_VALUE = None, describeInstances = (\<lambda>req. onePage groups),
      getProducts = catalog, now = t\<rparr>"

definition oneRate :: "string \<Rightarrow> jsvalue" where
  "oneRate rate =
     JArr [JObj [(''terms'', JObj [(''OnDemand'', JObj [(''pricePerUnit'', JObj [(''USD'', JStr rate)])])])]]"

definition p4d :: ec2instance where
  "p4d = \<lparr>InstanceId = ''i-0a1'', InstanceType = ''p4d.24xlarge'', LaunchTime = 128000\<rparr>"

definition t4g :: ec2instance where
  "t4g = \<lparr>InstanceId = ''i-0b2'', InstanceType = ''t4g.2xlarge'', LaunchTime = 0\<rparr>"

text \<open>A document with two rates under \<open>USD\<close>, and one whose rates are all falsy.\<close>

definition twoRates :: jsvalue where
  "twoRates =
     JArr [JObj [(''terms'', JObj [(''OnDemand'',
       JObj [(''first'', JObj [(''pricePerUnit'', JObj [(''USD'', JStr ''1.00'')])]),
             (''second'', JObj [(''pricePerUnit'', JObj [(''USD'', JStr ''2.00'')])])])])]]"

definition falsyRates :: jsvalue where
  "falsyRates =
     JArr [JObj [(''a'', JObj [(''USD'', JStr [])]), (''b'', JObj [(''USD'', JNum 0)]),
                 (''c'', JObj [(''USD'', JNull)])]]"

text \<open>
  An EC2 with two pages: the first answer carries a \<open>NextToken\<close>, and the request
  that hands it back gets the second.
\<close>

definition paged :: world where
  "paged =
     \<lparr>TAG_KEY = None, TAG_VALUE = None,
      describeInstances = (\<lambda>req.
        if NextTokenParam req = Some ''page-2''
        then \<lparr>Reservations = Some [\<lparr>Instances = Some [t4g]\<rparr>], NextToken = None\<rparr>
        else \<lparr>Reservations = Some [\<lparr>Instances = Some [p4d]\<rparr>], NextToken = Some ''page-2''\<rparr>),
      getProducts = (\<lambda>t. oneRate ''0.2688''), now = 256000\<rparr>"

section \<open>Properties\<close>

lemma foldl_flattenStep:
  "(\<And>b. b \<in> set ary \<Longrightarrow> flattenStep [] b = leaves b) \<Longrightarrow>
   foldl flattenStep a ary = a @ concat (map leaves ary)"
proof (induction ary arbitrary: a)
  case Nil
  show ?case by simp
next
  case (Cons b bs)
  have step: "flattenStep a b = a @ leaves b"
    using Cons.prems [of b] by (cases b) simp_all
  show ?case using Cons.IH [of "a @ leaves b"] Cons.prems by (simp add: step)
qed

lemma flattenStep_leaves: "flattenStep [] b = leaves b"
proof (induction b)
  case (Item x)
  show ?case by simp
next
  case (Nested xs)
  then show ?case using foldl_flattenStep [of xs "[]"] by simp
qed

lemma flattenArray_concat: "flattenArray ary = concat (map leaves ary)"
  using foldl_flattenStep [of ary "[]"] by (simp add: flattenStep_leaves)

subsection \<open>Rounding to a double\<close>

lemma floor_numeral_div: "\<lfloor>(numeral a :: rat) / numeral b\<rfloor> = numeral a div numeral b"
  using floor_divide_of_int_eq [of "numeral a" "numeral b", where ?'a = rat] by simp

lemma floor_one_div: "\<lfloor>(1 :: rat) / numeral b\<rfloor> = 1 div numeral b"
  using floor_divide_of_int_eq [of 1 "numeral b", where ?'a = rat] by simp

lemma ceiling_numeral_div: "\<lceil>(numeral a :: rat) / numeral b\<rceil> = - (- numeral a div numeral b)"
  using floor_divide_of_int_eq [of "- numeral a" "numeral b", where ?'a = rat]
  by (simp add: ceiling_def)

lemmas double_eval = toDouble_def exponentOf_def pow2_def roundHalfEven_def bits.simps Let_def
  floor_numeral_div floor_one_div ceiling_numeral_div

lemma bits_bounds: "0 < n \<Longrightarrow> 2 ^ (bits n - 1) \<le> n \<and> n < 2 ^ bits n"
proof (induction n rule: bits.induct)
  case (1 n)
  show ?case
  proof (cases "n div 2 = 0")
    case True
    then have "n = 1" using "1.prems" by (cases n) auto
    then show ?thesis by (simp add: bits.simps [of "Suc 0"] bits.simps [of 0])
  next
    case False
    then have h: "2 ^ (bits (n div 2) - 1) \<le> n div 2" "n div 2 < 2 ^ bits (n div 2)"
      using "1.IH" "1.prems" by auto
    have b: "bits n = Suc (bits (n div 2))" using "1.prems" by (simp add: bits.simps [of n])
    have p: "0 < bits (n div 2)" using False by (simp add: bits.simps [of "n div 2"])
    have "2 * 2 ^ (bits (n div 2) - 1) \<le> n" using h(1) by linarith
    moreover have "2 * 2 ^ (bits (n div 2) - 1) = (2::nat) ^ bits (n div 2)"
      using p by (cases "bits (n div 2)") simp_all
    moreover have "n < 2 * 2 ^ bits (n div 2)" using h(2) by linarith
    ultimately show ?thesis by (simp add: b)
  qed
qed

lemma pow2_pos: "0 < pow2 e"
  by (simp add: pow2_def)

lemma pow2_nat: "pow2 (int k) = 2 ^ k"
  by (simp add: pow2_def)

lemma pow2_neg_nat: "pow2 (- int k) = 1 / 2 ^ k"
  by (cases "k = 0") (simp_all add: pow2_def)

lemma exponentOf_bounds:
  assumes "0 < x"
  shows "pow2 (exponentOf x) \<le> x \<and> x < pow2 (exponentOf x + 1)"
proof (cases "1 \<le> x")
  case True
  define n where "n = nat \<lfloor>x\<rfloor>"
  have n: "0 < n" "of_nat n \<le> x" "x < of_nat n + 1"
    using True by (simp_all add: n_def) linarith+
  have b: "2 ^ (bits n - 1) \<le> n" "n < 2 ^ bits n" "0 < bits n"
    using bits_bounds [OF n(1)] n(1) by (simp_all add: bits.simps [of n])
  have "exponentOf x = int (bits n - 1)" "exponentOf x + 1 = int (bits n)"
    using True b(3) by (simp_all add: exponentOf_def n_def)
  then have e: "pow2 (exponentOf x) = 2 ^ (bits n - 1)" "pow2 (exponentOf x + 1) = 2 ^ bits n"
    by (simp_all only: pow2_nat)
  have "(2::rat) ^ (bits n - 1) \<le> of_nat n"
    using b(1) by (metis of_nat_le_iff of_nat_numeral of_nat_power)
  moreover have "of_nat n + 1 \<le> (2::rat) ^ bits n"
  proof -
    have "n + 1 \<le> 2 ^ bits n" using b(2) by simp
    then have "of_nat (n + 1) \<le> (of_nat (2 ^ bits n) :: rat)" by (simp only: of_nat_le_iff)
    then show ?thesis by simp
  qed
  ultimately show ?thesis using n(2,3) unfolding e by linarith
next
  case False
  define y where "y = 1 / x"
  define n where "n = nat (\<lceil>y\<rceil> - 1)"
  have y: "1 < y" using assms False by (simp add: y_def)
  then have c: "2 \<le> \<lceil>y\<rceil>" by linarith
  have n: "0 < n" "of_nat n < y" "y \<le> of_nat n + 1"
    using c by (simp_all add: n_def) linarith+
  have b: "2 ^ (bits n - 1) \<le> n" "n < 2 ^ bits n" "0 < bits n"
    using bits_bounds [OF n(1)] n(1) by (simp_all add: bits.simps [of n])
  have e0: "exponentOf x = - int (bits n)"
    using False by (simp add: exponentOf_def n_def y_def)
  have e1: "exponentOf x + 1 = - int (bits n - 1)"
    using b(3) by (simp add: e0)
  have e: "pow2 (exponentOf x) = 1 / 2 ^ bits n" "pow2 (exponentOf x + 1) = 1 / 2 ^ (bits n - 1)"
    by (simp only: e0 pow2_neg_nat) (simp only: e1 pow2_neg_nat)
  have lo: "(2::rat) ^ (bits n - 1) < y"
  proof -
    have "(2::rat) ^ (bits n - 1) \<le> of_nat n"
      using b(1) by (metis of_nat_le_iff of_nat_numeral of_nat_power)
    then show ?thesis using n(2) by linarith
  qed
  have hi: "y \<le> (2::rat) ^ bits n"
  proof -
    have "n + 1 \<le> 2 ^ bits n" using b(2) by simp
    then have "of_nat (n + 1) \<le> (of_nat (2 ^ bits n) :: rat)" by (simp only: of_nat_le_iff)
    then show ?thesis using n(3) by simp
  qed
  have x: "x = 1 / y" using assms by (simp add: y_def)
  have "1 / (2::rat) ^ bits n \<le> 1 / y"
    using hi y by (intro divide_left_mono) simp_all
  moreover have "1 / y < 1 / (2::rat) ^ (bits n - 1)"
    using lo by (intro divide_strict_left_mono) (simp_all add: y [THEN less_trans [OF zero_less_one]])
  ultimately show ?thesis unfolding e using x by simp
qed

lemma roundHalfEven_near: "\<bar>of_int (roundHalfEven y) - y\<bar> \<le> 1 / 2"
proof -
  define n where "n = \<lfloor>y\<rfloor>"
  define r where "r = y - of_int n"
  have r: "0 \<le> r" "r < 1" unfolding r_def n_def by linarith+
  have y: "y = of_int n + r" by (simp add: r_def)
  consider "roundHalfEven y = n" "r \<le> 1 / 2" | "roundHalfEven y = n + 1" "1 / 2 \<le> r"
    unfolding roundHalfEven_def Let_def n_def [symmetric] r_def [symmetric]
    by (cases "r < 1 / 2"; cases "1 / 2 < r"; cases "even n") auto
  then show ?thesis
  proof cases
    case 1
    then show ?thesis using r by (simp add: y)
  next
    case 2
    then show ?thesis using r by (simp add: y)
  qed
qed

lemma roundHalfEven_nonneg: "0 \<le> y \<Longrightarrow> 0 \<le> roundHalfEven y"
  by (auto simp add: roundHalfEven_def Let_def)

lemma toDouble_nonneg: "0 \<le> x \<Longrightarrow> 0 \<le> toDouble x"
  using pow2_pos by (simp add: toDouble_def Let_def roundHalfEven_nonneg less_imp_le)

lemma toDouble_near:
  "\<bar>toDouble x - x\<bar> \<le> pow2 (max (exponentOf \<bar>x\<bar>) (- 1022) - 52) / 2"
proof (cases "x = 0")
  case True
  then show ?thesis using pow2_pos [of "max (exponentOf \<bar>x\<bar>) (- 1022) - 52"]
    by (simp add: toDouble_def less_imp_le)
next
  case False
  define q where "q = pow2 (max (exponentOf \<bar>x\<bar>) (- 1022) - 52)"
  define m where "m = roundHalfEven (\<bar>x\<bar> / q)"
  have q: "0 < q" by (simp add: q_def pow2_pos)
  have "\<bar>of_int m - \<bar>x\<bar> / q\<bar> \<le> 1 / 2"
    unfolding m_def by (rule roundHalfEven_near)
  then have "\<bar>of_int m - \<bar>x\<bar> / q\<bar> * q \<le> 1 / 2 * q"
    using q by (intro mult_right_mono) simp_all
  moreover have "\<bar>of_int m - \<bar>x\<bar> / q\<bar> * q = \<bar>of_int m * q - \<bar>x\<bar>\<bar>"
  proof -
    have "(of_int m - \<bar>x\<bar> / q) * q = of_int m * q - \<bar>x\<bar>"
      using q by (simp add: left_diff_distrib)
    then have "\<bar>of_int m * q - \<bar>x\<bar>\<bar> = \<bar>of_int m - \<bar>x\<bar> / q\<bar> * \<bar>q\<bar>"
      by (metis abs_mult)
    then show ?thesis using q by simp
  qed
  moreover have "\<bar>toDouble x - x\<bar> = \<bar>of_int m * q - \<bar>x\<bar>\<bar>"
    using False by (cases "x < 0") (simp_all add: toDouble_def Let_def q_def m_def abs_minus_commute)
  ultimately show ?thesis by (simp add: q_def)
qed

subsection \<open>Digits, \<open>toFixed\<close> and \<open>JSON.parse\<close>\<close>

lemma digit_cases: "d < 10 \<Longrightarrow> d = 0 \<or> d = 1 \<or> d = 2 \<or> d = 3 \<or> d = 4 \<or> d = 5 \<or> d = 6 \<or> d = 7 \<or> d = 8 \<or> d = (9::nat)"
  by arith

lemma digitChar_digit:
  assumes "d < 10"
  shows "isDigit (digitChar d) \<and> digitVal (digitChar d) = d"
  using digit_cases [OF assms] by (elim disjE) (simp_all add: digitChar_def isDigit_def digitVal_def)

lemma digitChar_zero:
  assumes "d < 10"
  shows "(digitChar d = CHR ''0'') = (d = 0)"
  using digit_cases [OF assms] by (elim disjE) (simp_all add: digitChar_def)

lemma digitsOf_digits: "list_all isDigit (digitsOf n)"
proof (induction n rule: digitsOf.induct)
  case (1 n)
  show ?case
  proof (cases "n < 10")
    case True
    then show ?thesis by (simp add: digitsOf.simps [of n] digitChar_digit)
  next
    case False
    then show ?thesis using 1 by (simp add: digitsOf.simps [of n] digitChar_digit)
  qed
qed

lemma digitsOf_nonempty: "digitsOf n \<noteq> []"
  by (simp add: digitsOf.simps [of n])

lemma parseNat_snoc: "parseNat (ds @ [c]) = 10 * parseNat ds + digitVal c"
  by (simp add: parseNat_def)

lemma parseNat_digitsOf: "parseNat (digitsOf n) = n"
proof (induction n rule: digitsOf.induct)
  case (1 n)
  show ?case
  proof (cases "n < 10")
    case True
    then show ?thesis by (simp add: digitsOf.simps [of n] parseNat_def digitChar_digit)
  next
    case False
    then show ?thesis using 1 by (simp add: digitsOf.simps [of n] parseNat_snoc digitChar_digit)
  qed
qed

lemma hd_digitsOf: "(hd (digitsOf n) = CHR ''0'') = (n = 0)"
proof (induction n rule: digitsOf.induct)
  case (1 n)
  show ?case
  proof (cases "n < 10")
    case True
    then show ?thesis by (simp add: digitsOf.simps [of n] digitChar_zero)
  next
    case False
    then have "n div 10 \<noteq> 0" by simp
    then show ?thesis using 1 False digitsOf_nonempty [of "n div 10"]
      by (simp add: digitsOf.simps [of n] hd_append)
  qed
qed

lemma length_digitsOf: "(length (digitsOf n) \<le> f) = (n < 10 ^ f \<and> 0 < f)"
proof (induction n arbitrary: f rule: digitsOf.induct)
  case (1 n)
  show ?case
  proof (cases "n < 10")
    case True
    have "0 < f \<Longrightarrow> n < 10 ^ f"
    proof -
      assume "0 < f"
      then have "(10::nat) ^ 1 \<le> 10 ^ f" by (intro power_increasing) simp_all
      then show ?thesis using True by simp
    qed
    then show ?thesis using True by (auto simp add: digitsOf.simps [of n] Suc_le_eq)
  next
    case False
    show ?thesis
    proof (cases f)
      case 0
      then show ?thesis using False by (simp add: digitsOf.simps [of n])
    next
      case (Suc g)
      have "(n div 10 < 10 ^ g) = (n < 10 ^ Suc g)"
        by (simp add: div_less_iff_less_mult mult.commute)
      moreover have "n div 10 < 10 ^ g \<Longrightarrow> 0 < g"
        using False by (cases g) auto
      ultimately show ?thesis using 1 [OF False, of g] False Suc
        by (auto simp add: digitsOf.simps [of n])
    qed
  qed
qed

lemma parseNat_append: "parseNat (a @ b) = parseNat a * 10 ^ length b + parseNat b"
proof (induction b rule: rev_induct)
  case Nil
  show ?case by (simp add: parseNat_def)
next
  case (snoc c b)
  have "parseNat (a @ b @ [c]) = 10 * parseNat (a @ b) + digitVal c"
    using parseNat_snoc [of "a @ b" c] by simp
  then show ?case using snoc by (simp add: parseNat_snoc algebra_simps)
qed

lemma parseNat_zeros: "parseNat (replicate j (CHR ''0'') @ ds) = parseNat ds"
proof -
  have "parseNat (replicate j (CHR ''0'')) = 0"
  proof (induction j)
    case 0
    show ?case by (simp add: parseNat_def)
  next
    case (Suc j)
    have "replicate (Suc j) (CHR ''0'') = replicate j (CHR ''0'') @ [CHR ''0'']"
      by (simp add: replicate_append_same)
    then show ?case using Suc by (simp add: parseNat_snoc digitVal_def del: replicate.simps)
  qed
  then show ?thesis by (simp add: parseNat_append)
qed


lemma untrimmed:
  assumes "xs \<noteq> []" "\<not> P (hd xs)" "\<not> P (last xs)"
  shows "rev (dropWhile P (rev (dropWhile P xs))) = xs"
proof -
  have 1: "dropWhile P xs = xs" using assms(1,2) by (cases xs) simp_all
  have "rev xs \<noteq> []" "\<not> P (hd (rev xs))" using assms(1,3) by (simp_all add: hd_rev)
  then have "dropWhile P (rev xs) = rev xs" by (cases "rev xs") simp_all
  then show ?thesis using 1 by simp
qed

lemma digit_not_white: "isDigit c \<Longrightarrow> \<not> isJsonWhite c"
  by (auto simp add: isDigit_def isJsonWhite_def)

lemma span_digits:
  assumes "list_all isDigit a" "\<not> isDigit c"
  shows "takeWhile isDigit (a @ c # r) = a" "dropWhile isDigit (a @ c # r) = c # r"
  using assms by (induction a) simp_all

lemma takeWhile_digits: "list_all isDigit b \<Longrightarrow> takeWhile isDigit b = b"
  by (induction b) simp_all

lemma dropWhile_digits: "list_all isDigit b \<Longrightarrow> dropWhile isDigit b = []"
  by (induction b) simp_all

lemma JSON_parse_fixed:
  assumes a: "list_all isDigit a" "a \<noteq> []" "a = ''0'' \<or> hd a \<noteq> CHR ''0''"
    and b: "list_all isDigit b" "b \<noteq> []"
  shows "JSON_parse ((if neg then ''-'' else []) @ a @ ''.'' @ b) =
         Inr ((if neg then - 1 else 1) * (of_nat (parseNat a) + of_nat (parseNat b) / 10 ^ length b))"
proof -
  let ?text = "(if neg then ''-'' else []) @ a @ ''.'' @ b"
  have hd_a: "isDigit (hd a)" using a(1,2) by (cases a) simp_all
  have last_b: "isDigit (last b)" using b by (induction b) (auto split: if_splits)
  have nodash: "\<not> isDigit (CHR ''-'')" "\<not> isDigit (CHR ''.'')" "\<not> isJsonWhite (CHR ''-'')"
    by (simp_all add: isDigit_def isJsonWhite_def)
  have hd_text: "hd ?text = (if neg then CHR ''-'' else hd a)" using a(2) by (simp add: hd_append)
  have "\<not> isJsonWhite (hd ?text)" using hd_a nodash digit_not_white by (simp only: hd_text split: if_splits) auto
  moreover have "\<not> isJsonWhite (last ?text)" using last_b b(2) digit_not_white by simp
  moreover have "?text \<noteq> []" using b(2) by simp
  ultimately have t: "rev (dropWhile isJsonWhite (rev (dropWhile isJsonWhite ?text))) = ?text"
    by (rule untrimmed [rotated 1])
  have negt: "(?text \<noteq> [] \<and> hd ?text = CHR ''-'') = neg"
    using hd_a nodash(1) a(2) by (auto simp add: hd_append)
  have u: "(if neg then tl ?text else ?text) = a @ CHR ''.'' # b" by simp
  have ip: "takeWhile isDigit (a @ CHR ''.'' # b) = a" and r1: "dropWhile isDigit (a @ CHR ''.'' # b) = CHR ''.'' # b"
    using span_digits [OF a(1) nodash(2)] by simp_all
  show ?thesis
    unfolding JSON_parse_def Let_def t negt u ip r1
    using a(2,3) b by (simp add: takeWhile_digits dropWhile_digits pow10_def)
qed

lemma toFixed_shape:
  assumes "0 < f"
  shows "\<exists>a b. toFixed f (Fin r) = (if r < 0 then ''-'' else []) @ a @ ''.'' @ b
           \<and> list_all isDigit a \<and> a \<noteq> [] \<and> (a = ''0'' \<or> hd a \<noteq> CHR ''0'')
           \<and> list_all isDigit b \<and> length b = f
           \<and> parseNat (a @ b) = nat \<lfloor>\<bar>r\<bar> * 10 ^ f + 1 / 2\<rfloor>"
proof -
  define n where "n = nat \<lfloor>\<bar>r\<bar> * 10 ^ f + 1 / 2\<rfloor>"
  define m0 where "m0 = digitsOf n"
  define m where "m = (if length m0 \<le> f then replicate (f + 1 - length m0) (CHR ''0'') @ m0 else m0)"
  define k where "k = length m"
  define a where "a = take (k - f) m"
  define b where "b = drop (k - f) m"
  have zero: "isDigit (CHR ''0'')" by (simp add: isDigit_def)
  have m0: "list_all isDigit m0" "m0 \<noteq> []" "parseNat m0 = n"
    by (simp_all add: m0_def digitsOf_digits digitsOf_nonempty parseNat_digitsOf)
  have m: "list_all isDigit m" "parseNat m = n"
    using m0 zero by (simp_all add: m_def parseNat_zeros list_all_iff)
  have k: "f < k" using m0(2) by (auto simp add: k_def m_def)
  have ab: "a @ b = m" by (simp add: a_def b_def)
  have lb: "length b = f" using k by (simp add: b_def k_def)
  have "a \<noteq> []" using k by (auto simp add: a_def k_def)
  moreover have "list_all isDigit a" "list_all isDigit b"
    using m(1) ab by (metis list_all_append)+
  moreover have "a = ''0'' \<or> hd a \<noteq> CHR ''0''"
  proof (cases "length m0 \<le> f")
    case True
    then have "m = replicate (f + 1 - length m0) (CHR ''0'') @ m0" "length m = f + 1"
      by (simp_all add: m_def)
    then have "k - f = 1" "hd m = CHR ''0''" using True m0(2)
      by (auto simp add: k_def hd_append)
    moreover have "m \<noteq> []" using m0(2) by (simp add: m_def)
    ultimately have "k - f = 1" "hd m = CHR ''0''" "m \<noteq> []" by simp_all
    then have "a = [hd m]" by (cases m) (simp_all add: a_def)
    then show ?thesis using \<open>hd m = CHR ''0''\<close> by simp
  next
    case False
    then have mm: "m = m0" by (simp add: m_def)
    have "n \<noteq> 0"
    proof
      assume "n = 0"
      then have "length m0 = 1" by (simp add: m0_def digitsOf.simps [of 0])
      then show False using False assms(1) by simp
    qed
    then have "hd m0 \<noteq> CHR ''0''" by (simp add: m0_def hd_digitsOf)
    moreover have "hd a = hd m0" using k mm by (simp add: a_def k_def)
    ultimately show ?thesis by simp
  qed
  moreover have "toFixed f (Fin r) = (if r < 0 then ''-'' else []) @ a @ ''.'' @ b"
    using assms(1) by (simp add: toFixed.simps Let_def n_def m0_def m_def k_def a_def b_def)
  ultimately show ?thesis using lb ab m(2) unfolding n_def by blast
qed

lemma JSON_parse_toFixed:
  assumes "0 < f"
  shows "JSON_parse (toFixed f (Fin r)) = Inr (roundHalf f r)"
proof -
  obtain a b where ab: "toFixed f (Fin r) = (if r < 0 then ''-'' else []) @ a @ ''.'' @ b"
    "list_all isDigit a" "a \<noteq> []" "a = ''0'' \<or> hd a \<noteq> CHR ''0''"
    "list_all isDigit b" "length b = f" "parseNat (a @ b) = nat \<lfloor>\<bar>r\<bar> * 10 ^ f + 1 / 2\<rfloor>"
    using toFixed_shape [OF assms, of r] by blast
  have b: "b \<noteq> []" using ab(6) assms by auto
  have nn: "0 \<le> \<lfloor>\<bar>r\<bar> * 10 ^ f + 1 / 2\<rfloor>" by simp
  have "(of_nat (parseNat a) :: rat) + of_nat (parseNat b) / 10 ^ length b
        = of_nat (parseNat (a @ b)) / 10 ^ f"
    by (simp add: parseNat_append ab(6) add_divide_distrib)
  also have "\<dots> = of_int \<lfloor>\<bar>r\<bar> * 10 ^ f + 1 / 2\<rfloor> / 10 ^ f"
    using nn by (simp only: ab(7) of_nat_nat)
  finally show ?thesis
    unfolding ab(1) using JSON_parse_fixed [OF ab(2,3,4,5) b, of "r < 0"] by (simp add: roundHalf_def)
qed

subsection \<open>\<open>findPrice\<close> takes the last match\<close>

lemma last_last: "last (last (f # xs) # ys) = last (f # xs @ ys)"
  by (cases ys) simp_all

lemma replacer_last: "replacer k f v = last (f # filter (containsKey k) [v])"
  by (simp add: replacer_def containsKey_def)

lemma serialize_last:
  "serializeProperty k f v = last (f # filter (containsKey k) (visitOrder v))"
  "serializeArray k f xs = last (f # filter (containsKey k) (visitArray xs))"
  "serializeObject k f kvs = last (f # filter (containsKey k) (visitObject kvs))"
proof (induction k f v and k f xs and k f kvs
    rule: serializeProperty_serializeArray_serializeObject.induct)
  case (1 k f xs)
  then show ?case
    using last_last [of f "filter (containsKey k) [JArr xs]" "filter (containsKey k) (visitArray xs)"]
    by (simp add: replacer_last del: last.simps)
next
  case (2 k f kvs)
  then show ?case
    using last_last [of f "filter (containsKey k) [JObj kvs]" "filter (containsKey k) (visitObject kvs)"]
    by (simp add: replacer_last del: last.simps)
next
  case (5 k f x xs)
  then show ?case
    using last_last [of f "filter (containsKey k) (visitOrder x)" "filter (containsKey k) (visitArray xs)"]
    by (simp del: last.simps)
next
  case (7 k f n x kvs)
  then show ?case
    using last_last [of f "filter (containsKey k) (visitOrder x)" "filter (containsKey k) (visitObject kvs)"]
    by (simp del: last.simps)
qed (simp_all add: replacer_last)

lemma last_rev_case: "(case rev ms of [] \<Rightarrow> d | m # r \<Rightarrow> g m) = (if ms = [] then d else g (last ms))"
  by (cases ms rule: rev_cases) simp_all

lemma found_contains:
  "serializeProperty k JUndefined v = JUndefined \<or> containsKey k (serializeProperty k JUndefined v)"
proof (cases "filter (containsKey k) (visitOrder v) = []")
  case True
  then show ?thesis by (simp add: serialize_last)
next
  case False
  then have "last (filter (containsKey k) (visitOrder v)) \<in> set (filter (containsKey k) (visitOrder v))"
    by (rule last_in_set)
  then show ?thesis using False by (simp add: serialize_last)
qed

subsection \<open>The stages of the handler on an enumerated instance list\<close>

lemma countType_keys:
  "map fst (countType t kcs) = (if t \<in> fst ` set kcs then map fst kcs else map fst kcs @ [t])"
  by (induction kcs) force+

lemma countInstances_Some:
  "countInstances counts (map Some is) =
   Inr (foldl (\<lambda>counts instance. countType (InstanceType instance) counts) counts is)"
  by (induction "is" arbitrary: counts) simp_all

lemma instanceCountByType_Some: "instanceCountByType (map Some is) = Inr (countTypes is)"
  by (simp add: instanceCountByType_def countTypes_def countInstances_Some)

lemma foldl_countType_keys:
  "distinct (map fst counts) \<Longrightarrow>
   distinct (map fst (foldl (\<lambda>counts instance. countType (InstanceType instance) counts) counts is))
   \<and> set (map fst (foldl (\<lambda>counts instance. countType (InstanceType instance) counts) counts is))
       = fst ` set counts \<union> InstanceType ` set is"
proof (induction "is" arbitrary: counts)
  case Nil
  then show ?case by simp
next
  case (Cons i "is")
  have d: "distinct (map fst (countType (InstanceType i) counts))"
    using Cons.prems by (simp add: countType_keys)
  have s: "fst ` set (countType (InstanceType i) counts) = insert (InstanceType i) (fst ` set counts)"
    using arg_cong [OF countType_keys [of "InstanceType i" counts], of set] by (auto split: if_splits)
  show ?case using Cons.IH [OF d] by (simp add: s)
qed

lemma countTypes_keys:
  "distinct (map fst (countTypes is))" "fst ` set (countTypes is) = InstanceType ` set is"
  using foldl_countType_keys [of "[]" "is"] by (simp_all add: countTypes_def)

lemma find_priceList:
  "t \<in> set types \<Longrightarrow>
   find (\<lambda>p. instanceType p = t) (priceList catalog types)
   = Some \<lparr>instanceType = t, price = findPrice (catalog t) ''USD''\<rparr>"
  by (induction types) (auto simp add: priceList_def)

lemma instancesWithPrices_Some:
  "InstanceType ` set is \<subseteq> set types \<Longrightarrow>
   instancesWithPrices (map Some is) (priceList catalog types) = Inr (map (pricedInstance catalog) is)"
  by (induction "is") (simp_all add: find_priceList pricedInstance_def)

lemma handler_enumerated:
  assumes "instances (describeInstances w (request w)) = Inr (map Some is)"
  shows "handler w =
    (case JSON_parse (totalCost (map (\<lambda>i. costFromLaunch (now w) (pricedInstance (getProducts w) i)) is)) of
       Inl e \<Rightarrow> \<lparr>ec2Requests = [request w], pricingQueries = map fst (countTypes is),
                  metricData = [], failure = Some e\<rparr>
     | Inr v \<Rightarrow> \<lparr>ec2Requests = [request w], pricingQueries = map fst (countTypes is),
                  metricData = [v], failure = None\<rparr>)"
proof -
  have "InstanceType ` set is \<subseteq> set (map fst (countTypes is))"
    by (simp add: countTypes_keys(2))
  then have "instancesWithPrices (map Some is) (priceList (getProducts w) (map fst (countTypes is)))
             = Inr (map (pricedInstance (getProducts w)) is)"
    by (rule instancesWithPrices_Some)
  then show ?thesis
    by (simp add: handler_def assms instanceCountByType_Some totalCostPerInstanceFromLaunch_def
        o_def split: sum.splits)
qed

lemma foldl_jsAdd_Fin:
  "foldl jsAdd (Fin a) (map Fin rs) = Fin (foldl (\<lambda>accumulator value. toDouble (accumulator + value)) a rs)"
  by (induction rs arbitrary: a) simp_all

lemma reduce_jsAdd: "foldl jsAdd (Fin 0) (map Fin rs) = Fin (doubleSum rs)"
  by (simp add: foldl_jsAdd_Fin doubleSum_def)

lemma foldl_toDouble_nonneg:
  "0 \<le> a \<Longrightarrow> \<forall>c \<in> set cs. 0 \<le> c \<Longrightarrow>
   0 \<le> foldl (\<lambda>accumulator value. toDouble (accumulator + value)) a cs"
  by (induction cs arbitrary: a) (simp_all add: toDouble_nonneg)

lemma doubleSum_nonneg: "\<forall>c \<in> set cs. 0 \<le> c \<Longrightarrow> 0 \<le> doubleSum cs"
  using foldl_toDouble_nonneg [of 0 cs] by (simp add: doubleSum_def)

lemma foldl_jsAdd_NaN: "foldl jsAdd NaN cs = NaN"
  by (induction cs) simp_all

lemma jsAdd_NaN_right: "jsAdd x NaN = NaN"
  by (cases x) simp_all

lemma foldl_jsAdd_has_NaN: "NaN \<in> set cs \<Longrightarrow> foldl jsAdd a cs = NaN"
  by (induction cs arbitrary: a) (auto simp add: foldl_jsAdd_NaN jsAdd_NaN_right)

lemma JSON_parse_NaN: "JSON_parse ''NaN'' = Inl (SyntaxError ''NaN'')"
  by (simp add: JSON_parse_def isJsonWhite_def isDigit_def)

lemma handler_requests: "ec2Requests (handler w) = [request w]"
  by (simp add: handler_def Let_def split: sum.splits)

lemma instances_reservations:
  assumes "Reservations r = Some (map (\<lambda>is. \<lparr>Instances = Some is\<rparr>) groups)"
  shows "instances r = Inr (map Some (concat groups))"
proof -
  have "concat (map (\<lambda>is. map (\<lambda>instance. Some instance) is) groups) = map Some (concat groups)"
    by (induction groups) simp_all
  then show ?thesis
    by (simp add: instances_def response_def assms flattenArray_concat o_def del: flattenArray.simps)
qed

lemma absent_reservations_throw:
  assumes "Reservations (describeInstances w (request w)) = None"
  shows "handler w = \<lparr>ec2Requests = [request w], pricingQueries = [], metricData = [],
                       failure = Some TypeError\<rparr>"
  by (simp add: handler_def instances_def response_def assms)

lemma fleet_instances:
  "instances (describeInstances (fleet groups catalog t) req) = Inr (map Some (concat groups))"
  using instances_reservations [of "onePage groups" groups] by (simp add: fleet_def onePage_def)

lemma costFromLaunch_Fin:
  "toNumber (Price instance) = Fin rate \<Longrightarrow>
   costFromLaunch t instance = Fin (rate / 3600 * of_int (timeDifference (LaunchTime instance) t))"
  by (simp add: costFromLaunch_def)

lemma timeDifference_nonneg: "date1 \<le> date2 \<Longrightarrow> 0 \<le> timeDifference date1 date2"
  by (simp add: timeDifference_def)

lemma roundHalf_nonneg: "0 \<le> x \<Longrightarrow> 0 \<le> roundHalf f x"
  by (simp add: roundHalf_def)

lemma roundHalf_grid: "\<exists>k::int. roundHalf f x = of_int k / 10 ^ f"
proof (cases "x < 0")
  case True
  then have "roundHalf f x = of_int (- \<lfloor>\<bar>x\<bar> * 10 ^ f + 1 / 2\<rfloor>) / 10 ^ f"
    by (simp add: roundHalf_def)
  then show ?thesis by blast
next
  case False
  then have "roundHalf f x = of_int \<lfloor>\<bar>x\<bar> * 10 ^ f + 1 / 2\<rfloor> / 10 ^ f"
    by (simp add: roundHalf_def)
  then show ?thesis by blast
qed

lemma roundHalf_near: "\<bar>roundHalf f x - x\<bar> \<le> 1 / (2 * 10 ^ f)"
proof -
  define y where "y = \<bar>x\<bar> * 10 ^ f"
  define n where "n = \<lfloor>y + 1 / 2\<rfloor>"
  have p: "(0::rat) < 10 ^ f" by simp
  have "of_int n \<le> y + 1 / 2" "y + 1 / 2 < of_int n + 1"
    unfolding n_def by linarith+
  then have "\<bar>of_int n - y\<bar> \<le> 1 / 2" by linarith
  then have "\<bar>of_int n - y\<bar> / 10 ^ f \<le> (1 / 2) / 10 ^ f"
    by (rule divide_right_mono) simp
  moreover have "\<bar>of_int n - y\<bar> / 10 ^ f = \<bar>of_int n / 10 ^ f - \<bar>x\<bar>\<bar>"
  proof -
    have "of_int n / 10 ^ f - \<bar>x\<bar> = (of_int n - y) / 10 ^ f"
      by (simp add: y_def diff_divide_distrib)
    then show ?thesis by (simp add: abs_divide)
  qed
  moreover have "\<bar>roundHalf f x - x\<bar> = \<bar>of_int n / 10 ^ f - \<bar>x\<bar>\<bar>"
    by (cases "x < 0") (simp_all add: roundHalf_def n_def y_def abs_minus_commute)
  ultimately show ?thesis by simp
qed

lemma handler_queries:
  assumes "instances (describeInstances w (request w)) = Inr (map Some is)"
  shows "pricingQueries (handler w) = map fst (countTypes is)"
  by (simp add: handler_enumerated [OF assms] split: sum.splits)

lemma one_hour_at_2675:
  "metricData (handler (fleet [[t4g]] (\<lambda>t. oneRate ''2.675'') 3600000)) = [267 / 100]"
proof -
  let ?w = "fleet [[t4g]] (\<lambda>t. oneRate ''2.675'') 3600000"
  have e: "instances (describeInstances ?w (request ?w)) = Inr (map Some [t4g])"
    using fleet_instances [of "[[t4g]]"] by simp
  have c: "costFromLaunch (now ?w) (pricedInstance (getProducts ?w) t4g) = Fin (107 / 40)"
    by (simp add: fleet_def costFromLaunch_def pricedInstance_def findPrice_def replacer_def oneRate_def
        t4g_def timeDifference_def stringToNumber_def trim_def isWhite_def parseUnsignedDecimal_def
        isDigit_def parseNat_def digitVal_def pow10_def radixOf_def)
  have s: "doubleSum [107 / 40] = 3011782250804019 / 1125899906842624"
    by (simp add: doubleSum_def double_eval)
  have "JSON_parse (totalCost [Fin (107 / 40)]) = Inr (267 / 100)"
    using reduce_jsAdd [of "[107 / 40]"]
    by (simp add: totalCost_def s JSON_parse_toFixed roundHalf_def floor_numeral_div del: foldl.simps)
  then show ?thesis
    by (simp add: handler_enumerated [OF e] c del: foldl.simps)
qed

section \<open>The claims\<close>

text \<open>
  C1, as stated, fails: \<open>foundObj\<close> is assigned at every value that contains the
  key and the traversal never stops, so the last such value in traversal order
  stays. On a document with two rates the second one is returned.
\<close>

theorem findPrice_first_counterexample:
  "findPrice twoRates ''USD'' = JStr ''2.00'' \<and> findPrice_first twoRates ''USD'' = JStr ''1.00''"
  by code_simp

text \<open>
  C1, amended: \<open>findPrice\<close> traverses the document depth-first, a value before its
  parts, object properties in their order and array elements by index, and returns
  the \<open>USD\<close> value of the last value in that order that contains the key.
\<close>

theorem findPrice_takes_last: "findPrice entireObj keyToFind = findPrice_last entireObj keyToFind"
  by (simp add: findPrice_def findPrice_last_def serialize_last last_rev_case)

theorem findPrice_takes_last_witness:
  "findPrice twoRates ''USD'' = findPrice_last twoRates ''USD'' \<and> findPrice_last twoRates ''USD'' = JStr ''2.00''"
proof -
  have a: "findPrice twoRates ''USD'' = findPrice_last twoRates ''USD''"
    by (rule findPrice_takes_last)
  have b: "findPrice_last twoRates ''USD'' = JStr ''2.00''"
    by code_simp
  show ?thesis by (rule conjI [OF a b])
qed

text \<open>
  C2, as stated, fails: \<open>timeDifference\<close> is a floor of the difference and nothing
  clamps it. An instance launched 128 seconds after \<open>now\<close>, at 28.125 dollars an
  hour, costs -1 dollar, and -1 is published.
\<close>

theorem future_launch_counterexample:
  "timeDifference (LaunchTime p4d) 0 = - 128
   \<and> costFromLaunch 0 (pricedInstance (\<lambda>t. oneRate ''28.125'') p4d) = Fin (- 1)
   \<and> metricData (handler (fleet [[p4d]] (\<lambda>t. oneRate ''28.125'') 0)) = [- 1]"
  by code_simp

text \<open>
  C2, amended: when no instance was launched after \<open>now\<close> and every resolved rate
  is a non-negative number, the elapsed seconds \<open>floor((now - launchTime) / 1000)\<close>
  of every instance are at least zero, no instance contributes a negative cost, and
  one total, at least zero, is published.
\<close>

theorem launched_total_nonnegative:
  assumes enumerated: "instances (describeInstances w (request w)) = Inr (map Some is)"
    and launched: "\<forall>i \<in> set is. LaunchTime i \<le> now w"
    and rates: "\<forall>i \<in> set is. \<exists>rate. 0 \<le> rate \<and> toNumber (findPrice (getProducts w (InstanceType i)) ''USD'') = Fin rate"
  shows "(\<forall>i \<in> set is. 0 \<le> timeDifference (LaunchTime i) (now w)
            \<and> (\<exists>c. 0 \<le> c \<and> costFromLaunch (now w) (pricedInstance (getProducts w) i) = Fin c))
         \<and> (\<exists>v. 0 \<le> v \<and> metricData (handler w) = [v])
         \<and> failure (handler w) = None"
proof -
  have each: "0 \<le> timeDifference (LaunchTime i) (now w)
      \<and> (\<exists>c. 0 \<le> c \<and> costFromLaunch (now w) (pricedInstance (getProducts w) i) = Fin c)"
    if mem: "i \<in> set is" for i
  proof -
    obtain rate where r: "0 \<le> rate" "toNumber (Price (pricedInstance (getProducts w) i)) = Fin rate"
      using rates mem by (auto simp add: pricedInstance_def)
    have d: "0 \<le> timeDifference (LaunchTime i) (now w)"
      using launched mem by (simp add: timeDifference_nonneg)
    have "costFromLaunch (now w) (pricedInstance (getProducts w) i)
          = Fin (rate / 3600 * of_int (timeDifference (LaunchTime i) (now w)))"
      using costFromLaunch_Fin [OF r(2), of "now w"] by (simp add: pricedInstance_def)
    moreover have "0 \<le> rate / 3600 * of_int (timeDifference (LaunchTime i) (now w))"
      using r(1) d by simp
    ultimately show ?thesis using d by blast
  qed
  have "\<exists>cs. map (\<lambda>i. costFromLaunch (now w) (pricedInstance (getProducts w) i)) js = map Fin cs
             \<and> (\<forall>c \<in> set cs. 0 \<le> c)" if "set js \<subseteq> set is" for js
    using that
  proof (induction js)
    case Nil
    show ?case by simp
  next
    case (Cons j js)
    then obtain cs where cs: "map (\<lambda>i. costFromLaunch (now w) (pricedInstance (getProducts w) i)) js = map Fin cs"
      "\<forall>c \<in> set cs. 0 \<le> c" by auto
    obtain c where c: "0 \<le> c" "costFromLaunch (now w) (pricedInstance (getProducts w) j) = Fin c"
      using each [of j] Cons.prems by auto
    have "map (\<lambda>i. costFromLaunch (now w) (pricedInstance (getProducts w) i)) (j # js) = map Fin (c # cs)"
      using cs(1) c(2) by simp
    moreover have "\<forall>x \<in> set (c # cs). 0 \<le> x" using cs(2) c(1) by simp
    ultimately show ?case by blast
  qed
  then obtain cs where cs: "map (\<lambda>i. costFromLaunch (now w) (pricedInstance (getProducts w) i)) is = map Fin cs"
    "\<forall>c \<in> set cs. 0 \<le> c" by blast
  have total: "JSON_parse (totalCost (map Fin cs)) = Inr (roundHalf 2 (doubleSum cs))"
    by (simp add: totalCost_def reduce_jsAdd JSON_parse_toFixed)
  have "0 \<le> doubleSum cs" using cs(2) by (rule doubleSum_nonneg)
  then have "0 \<le> roundHalf 2 (doubleSum cs)" by (rule roundHalf_nonneg)
  then show ?thesis
    using each by (simp add: handler_enumerated [OF enumerated] cs(1) total)
qed

theorem launched_total_nonnegative_witness:
  "instances (describeInstances (fleet [[p4d, t4g]] (\<lambda>t. oneRate ''28.125'') 256000)
       (request (fleet [[p4d, t4g]] (\<lambda>t. oneRate ''28.125'') 256000))) = Inr (map Some [p4d, t4g])
   \<and> list_all (\<lambda>i. LaunchTime i \<le> now (fleet [[p4d, t4g]] (\<lambda>t. oneRate ''28.125'') 256000)) [p4d, t4g]
   \<and> list_all (\<lambda>i. toNumber (findPrice (oneRate ''28.125'') ''USD'') = Fin (225 / 8)) [p4d, t4g]
   \<and> (\<exists>v. 0 \<le> v \<and> metricData (handler (fleet [[p4d, t4g]] (\<lambda>t. oneRate ''28.125'') 256000)) = [v])
   \<and> metricData (handler (fleet [[p4d, t4g]] (\<lambda>t. oneRate ''28.125'') 256000)) = [3]"
proof -
  let ?w = "fleet [[p4d, t4g]] (\<lambda>t. oneRate ''28.125'') 256000"
  have e: "instances (describeInstances ?w (request ?w)) = Inr (map Some [p4d, t4g])"
    using fleet_instances [of "[[p4d, t4g]]"] by simp
  have l: "list_all (\<lambda>i. LaunchTime i \<le> now ?w) [p4d, t4g]"
    by code_simp
  have r: "list_all (\<lambda>i. toNumber (findPrice (oneRate ''28.125'') ''USD'') = Fin (225 / 8)) [p4d, t4g]"
    by code_simp
  have l': "\<forall>i \<in> set [p4d, t4g]. LaunchTime i \<le> now ?w"
    using l by (simp add: list_all_iff)
  have r': "\<forall>i \<in> set [p4d, t4g]. \<exists>rate. 0 \<le> rate \<and> toNumber (findPrice (getProducts ?w (InstanceType i)) ''USD'') = Fin rate"
  proof
    fix i assume "i \<in> set [p4d, t4g]"
    have "(0::rat) \<le> 225 / 8 \<and> toNumber (findPrice (getProducts ?w (InstanceType i)) ''USD'') = Fin (225 / 8)"
      using r by (simp add: fleet_def)
    then show "\<exists>rate. 0 \<le> rate \<and> toNumber (findPrice (getProducts ?w (InstanceType i)) ''USD'') = Fin rate"
      by blast
  qed
  have v: "\<exists>v. 0 \<le> v \<and> metricData (handler ?w) = [v]"
    using launched_total_nonnegative [OF e l' r'] by blast
  have m: "metricData (handler ?w) = [3]"
    by code_simp
  show ?thesis using e l r v m by blast
qed

text \<open>
  C3, as stated, fails in one part: nothing in the handler tests for a missing
  price. The price \<open>undefined\<close> makes the cost \<open>NaN\<close>, the total \<open>NaN\<close>, its text
  \<open>NaN\<close>, and \<open>JSON.parse\<close> throws a \<open>SyntaxError\<close> on that text. The error is the
  same for two instances of different identifiers and types: it names neither.
\<close>

theorem missing_price_error_counterexample:
  "failure (handler (fleet [[p4d]] (\<lambda>t. JArr []) 256000)) = Some (SyntaxError ''NaN'')
   \<and> failure (handler (fleet [[t4g]] (\<lambda>t. JArr []) 256000)) = Some (SyntaxError ''NaN'')
   \<and> InstanceId p4d \<noteq> InstanceId t4g \<and> InstanceType p4d \<noteq> InstanceType t4g"
  by code_simp

text \<open>
  C3, amended: when the price extraction yields \<open>undefined\<close> for the type of some
  enumerated instance, that instance's cost is \<open>NaN\<close>, not zero, the invocation
  fails with the \<open>SyntaxError\<close> that \<open>JSON.parse\<close> throws on the text \<open>NaN\<close>, and
  \<open>putMetricData\<close> is never called.
\<close>

theorem missing_price_fails_unpublished:
  assumes enumerated: "instances (describeInstances w (request w)) = Inr (map Some is)"
    and present: "i \<in> set is"
    and absent: "findPrice (getProducts w (InstanceType i)) ''USD'' = JUndefined"
  shows "costFromLaunch (now w) (pricedInstance (getProducts w) i) = NaN
         \<and> failure (handler w) = Some (SyntaxError ''NaN'')
         \<and> metricData (handler w) = []"
proof -
  have c: "costFromLaunch (now w) (pricedInstance (getProducts w) i) = NaN"
    by (simp add: costFromLaunch_def pricedInstance_def absent)
  then have "NaN \<in> set (map (\<lambda>i. costFromLaunch (now w) (pricedInstance (getProducts w) i)) is)"
    using present by force
  then have "totalCost (map (\<lambda>i. costFromLaunch (now w) (pricedInstance (getProducts w) i)) is) = ''NaN''"
    by (simp only: totalCost_def foldl_jsAdd_has_NaN toFixed.simps)
  then show ?thesis
    using c by (simp add: handler_enumerated [OF enumerated] JSON_parse_NaN)
qed

theorem missing_price_fails_unpublished_witness:
  "instances (describeInstances (fleet [[t4g, p4d]] (\<lambda>t. if t = ''p4d.24xlarge'' then JArr [] else oneRate ''0.2688'') 256000)
      (request (fleet [[t4g, p4d]] (\<lambda>t. if t = ''p4d.24xlarge'' then JArr [] else oneRate ''0.2688'') 256000)))
     = Inr (map Some [t4g, p4d])
   \<and> p4d \<in> set [t4g, p4d]
   \<and> findPrice (if InstanceType p4d = ''p4d.24xlarge'' then JArr [] else oneRate ''0.2688'') ''USD'' = JUndefined
   \<and> failure (handler (fleet [[t4g, p4d]] (\<lambda>t. if t = ''p4d.24xlarge'' then JArr [] else oneRate ''0.2688'') 256000))
       = Some (SyntaxError ''NaN'')
   \<and> metricData (handler (fleet [[t4g, p4d]] (\<lambda>t. if t = ''p4d.24xlarge'' then JArr [] else oneRate ''0.2688'') 256000)) = []"
proof -
  let ?c = "\<lambda>t. if t = ''p4d.24xlarge'' then JArr [] else oneRate ''0.2688''"
  let ?w = "fleet [[t4g, p4d]] ?c 256000"
  have e: "instances (describeInstances ?w (request ?w)) = Inr (map Some [t4g, p4d])"
    using fleet_instances [of "[[t4g, p4d]]"] by simp
  have p: "p4d \<in> set [t4g, p4d]" by simp
  have a: "findPrice (?c (InstanceType p4d)) ''USD'' = JUndefined" by code_simp
  have a': "findPrice (getProducts ?w (InstanceType p4d)) ''USD'' = JUndefined"
    using a by (simp add: fleet_def)
  show ?thesis using missing_price_fails_unpublished [OF e p a'] e p a by blast
qed

text \<open>
  C4: when the enumeration yields no instance, no price is asked for, the total is
  the text \<open>0.00\<close>, the invocation succeeds, and \<open>putMetricData\<close> is called once, with
  the value 0. (An answer without a \<open>Reservations\<close> array yields no sequence at
  all, and \<open>flattenArray\<close> throws: \<open>absent_reservations_throw\<close>.)
\<close>

theorem empty_set_publishes_zero:
  assumes "instances (describeInstances w (request w)) = Inr []"
  shows "totalCost (totalCostPerInstanceFromLaunch (now w) []) = ''0.00''
         \<and> handler w = \<lparr>ec2Requests = [request w], pricingQueries = [], metricData = [0], failure = None\<rparr>"
proof -
  have t: "totalCost [] = ''0.00''"
    by code_simp
  have p: "JSON_parse ''0.00'' = Inr 0"
    by (simp add: JSON_parse_def isJsonWhite_def isDigit_def parseNat_def digitVal_def pow10_def)
  have e: "instances (describeInstances w (request w)) = Inr (map Some [])"
    using assms by simp
  show ?thesis
    using p by (simp add: handler_enumerated [OF e] countTypes_def totalCostPerInstanceFromLaunch_def t)
qed

theorem empty_set_publishes_zero_witness:
  "instances (describeInstances (fleet [] (\<lambda>t. JUndefined) 0) (request (fleet [] (\<lambda>t. JUndefined) 0))) = Inr []
   \<and> instances (describeInstances (fleet [[], []] (\<lambda>t. JUndefined) 0) (request (fleet [[], []] (\<lambda>t. JUndefined) 0))) = Inr []
   \<and> metricData (handler (fleet [] (\<lambda>t. JUndefined) 0)) = [0]
   \<and> failure (handler (fleet [] (\<lambda>t. JUndefined) 0)) = None
   \<and> metricData (handler (fleet [[], []] (\<lambda>t. JUndefined) 0)) = [0]"
proof -
  let ?w = "fleet [] (\<lambda>t. JUndefined) 0"
  let ?v = "fleet [[], []] (\<lambda>t. JUndefined) 0"
  have e: "instances (describeInstances ?w (request ?w)) = Inr []"
    using fleet_instances [of "[]"] by simp
  have f: "instances (describeInstances ?v (request ?v)) = Inr []"
    using fleet_instances [of "[[], []]"] by simp
  show ?thesis
    using empty_set_publishes_zero [OF e] empty_set_publishes_zero [OF f] e f by simp
qed

text \<open>
  C5, as stated, fails: the handler calls \<open>describeInstances\<close> once and never reads
  \<open>NextToken\<close>. When EC2 answers in two pages, the instance on the second page is
  neither enumerated nor priced.
\<close>

theorem second_page_counterexample:
  "NextToken (describeInstances paged (request paged)) = Some ''page-2''
   \<and> Reservations (describeInstances paged ((request paged)\<lparr>NextTokenParam := Some ''page-2''\<rparr>))
       = Some [\<lparr>Instances = Some [t4g]\<rparr>]
   \<and> instances (describeInstances paged (request paged)) = Inr [Some p4d]
   \<and> ec2Requests (handler paged) = [request paged]
   \<and> pricingQueries (handler paged) = [''p4d.24xlarge'']"
proof -
  have page1: "instances (describeInstances paged (request paged)) = Inr (map Some [p4d])"
    by (simp add: paged_def request_def instances_def response_def)
  have "pricingQueries (handler paged) = [''p4d.24xlarge'']"
    by (simp add: handler_queries [OF page1] countTypes_def p4d_def)
  moreover have "NextToken (describeInstances paged (request paged)) = Some ''page-2''"
    by (simp add: paged_def request_def)
  moreover have "Reservations (describeInstances paged ((request paged)\<lparr>NextTokenParam := Some ''page-2''\<rparr>))
       = Some [\<lparr>Instances = Some [t4g]\<rparr>]"
    by (simp add: paged_def request_def)
  ultimately show ?thesis using page1 by (simp add: handler_requests)
qed

text \<open>
  C5, amended: the handler sends one \<open>describeInstances\<close> request, with no page
  size and no continuation token, and flattens the reservations of that one answer
  into one sequence, in the order of the answer: every instance of every
  reservation of that answer is enumerated. No further page is requested.
\<close>

theorem single_request_enumeration:
  assumes "Reservations (describeInstances w (request w)) = Some (map (\<lambda>is. \<lparr>Instances = Some is\<rparr>) groups)"
  shows "ec2Requests (handler w) = [request w]
         \<and> MaxResults (request w) = None \<and> NextTokenParam (request w) = None
         \<and> instances (describeInstances w (request w)) = Inr (map Some (concat groups))"
  using instances_reservations [OF assms] by (simp add: handler_requests request_def)

theorem single_request_enumeration_witness:
  "Reservations (describeInstances (fleet [[p4d], [], [t4g, p4d]] (\<lambda>t. JUndefined) 0)
       (request (fleet [[p4d], [], [t4g, p4d]] (\<lambda>t. JUndefined) 0)))
     = Some (map (\<lambda>is. \<lparr>Instances = Some is\<rparr>) [[p4d], [], [t4g, p4d]])
   \<and> instances (describeInstances (fleet [[p4d], [], [t4g, p4d]] (\<lambda>t. JUndefined) 0)
       (request (fleet [[p4d], [], [t4g, p4d]] (\<lambda>t. JUndefined) 0)))
     = Inr [Some p4d, Some t4g, Some p4d]"
proof -
  let ?w = "fleet [[p4d], [], [t4g, p4d]] (\<lambda>t. JUndefined) 0"
  have r: "Reservations (describeInstances ?w (request ?w))
           = Some (map (\<lambda>is. \<lparr>Instances = Some is\<rparr>) [[p4d], [], [t4g, p4d]])"
    by (simp add: fleet_def onePage_def)
  show ?thesis using single_request_enumeration [OF r] r by simp
qed




text \<open>
  C8, as stated, fails at the boundaries it names. The costs are doubles and so is
  their sum. The doubles nearest 0.12 and 0.005 add up to a little less than
  0.125, which rounds to 0.12; their double sum is exactly 0.125, and 0.13 is
  published. The double nearest 2.675 lies below it, and 2.67 is published where
  the decimal total 2.675 rounds to 2.68.
\<close>

theorem decimal_boundary_counterexample:
  "toDouble (12 / 100) = 1080863910568919 / 9007199254740992
   \<and> toDouble (5 / 1000) = 5764607523034235 / 1152921504606846976
   \<and> JSON_parse (totalCost [Fin (1080863910568919 / 9007199254740992),
                              Fin (5764607523034235 / 1152921504606846976)]) = Inr (13 / 100)
   \<and> roundHalf 2 (1080863910568919 / 9007199254740992 + 5764607523034235 / 1152921504606846976)
       = 12 / 100
   \<and> toDouble (2675 / 1000) = 3011782250804019 / 1125899906842624
   \<and> JSON_parse (totalCost [Fin (3011782250804019 / 1125899906842624)]) = Inr (267 / 100)
   \<and> roundHalf 2 (2675 / 1000) = 268 / 100
   \<and> metricData (handler (fleet [[t4g]] (\<lambda>t. oneRate ''2.675'') 3600000)) = [267 / 100]"
proof -
  have a: "toDouble (12 / 100) = 1080863910568919 / 9007199254740992"
    by (simp add: double_eval)
  have b: "toDouble (5 / 1000) = 5764607523034235 / 1152921504606846976"
    by (simp add: double_eval)
  have c: "toDouble (2675 / 1000) = 3011782250804019 / 1125899906842624"
    by (simp add: double_eval)
  have s: "doubleSum [1080863910568919 / 9007199254740992, 5764607523034235 / 1152921504606846976] = 1 / 8"
    by (simp add: doubleSum_def double_eval)
  have t: "doubleSum [3011782250804019 / 1125899906842624] = 3011782250804019 / 1125899906842624"
    by (simp add: doubleSum_def double_eval)
  have p: "JSON_parse (totalCost [Fin (1080863910568919 / 9007199254740992),
                              Fin (5764607523034235 / 1152921504606846976)]) = Inr (13 / 100)"
    using reduce_jsAdd [of "[1080863910568919 / 9007199254740992, 5764607523034235 / 1152921504606846976]"]
    by (simp add: totalCost_def s JSON_parse_toFixed roundHalf_def floor_numeral_div del: foldl.simps)
  have q: "JSON_parse (totalCost [Fin (3011782250804019 / 1125899906842624)]) = Inr (267 / 100)"
    using reduce_jsAdd [of "[3011782250804019 / 1125899906842624]"]
    by (simp add: totalCost_def t JSON_parse_toFixed roundHalf_def floor_numeral_div del: foldl.simps)
  have r: "roundHalf 2 (1080863910568919 / 9007199254740992 + 5764607523034235 / 1152921504606846976)
       = 12 / 100"
    by (simp add: roundHalf_def floor_numeral_div)
  have u: "roundHalf 2 (2675 / 1000) = 268 / 100"
    by (simp add: roundHalf_def floor_numeral_div)
  show ?thesis using a b c p q r u one_hour_at_2675 by blast
qed

text \<open>
  C8, amended: for a list of finite per-instance costs, the value handed to
  \<open>putMetricData\<close>, \<open>JSON.parse\<close> of the \<open>toFixed(2)\<close> text of their sum, is the
  running double sum of the costs, every addition rounded to the nearest double,
  rounded to two decimal places on its exact value: a whole number of hundredths,
  at most half a hundredth from that sum, and away from zero when that sum lies
  exactly between two hundredths. It is a function of the costs alone.
\<close>

theorem total_rounds_double_sum:
  "foldl jsAdd (Fin 0) (map Fin costs) = Fin (doubleSum costs)
   \<and> JSON_parse (totalCost (map Fin costs)) = Inr (roundHalf 2 (doubleSum costs))
   \<and> (\<exists>k::int. roundHalf 2 (doubleSum costs) = of_int k / 100)
   \<and> \<bar>roundHalf 2 (doubleSum costs) - doubleSum costs\<bar> \<le> 1 / 200
   \<and> (\<forall>k::int. \<bar>doubleSum costs\<bar> * 100 = of_int k + 1 / 2 \<longrightarrow>
         \<bar>roundHalf 2 (doubleSum costs)\<bar> = (of_int k + 1) / 100)"
proof -
  have "JSON_parse (totalCost (map Fin costs)) = Inr (roundHalf 2 (doubleSum costs))"
    by (simp add: totalCost_def reduce_jsAdd JSON_parse_toFixed)
  moreover have "\<exists>k::int. roundHalf 2 (doubleSum costs) = of_int k / 100"
    using roundHalf_grid [of 2 "doubleSum costs"] by simp
  moreover have "\<bar>roundHalf 2 (doubleSum costs) - doubleSum costs\<bar> \<le> 1 / 200"
    using roundHalf_near [of 2 "doubleSum costs"] by simp
  moreover have "\<bar>roundHalf 2 (doubleSum costs)\<bar> = (of_int k + 1) / 100"
    if tie: "\<bar>doubleSum costs\<bar> * 100 = of_int k + 1 / 2" for k :: int
  proof -
    have f: "\<lfloor>\<bar>doubleSum costs\<bar> * 100 + 1 / 2\<rfloor> = k + 1"
      by (simp add: tie)
    moreover have "0 \<le> \<lfloor>\<bar>doubleSum costs\<bar> * 100 + 1 / 2\<rfloor>" by simp
    ultimately have "0 \<le> k + 1" by simp
    then have "\<bar>(of_int k + 1) / (100::rat)\<bar> = (of_int k + 1) / 100"
      by (simp add: abs_if)
    then show ?thesis using f by (simp add: roundHalf_def abs_mult)
  qed
  ultimately show ?thesis using reduce_jsAdd [of costs] by blast
qed

theorem total_rounds_double_sum_witness:
  "doubleSum [1 / 16, 1 / 16] = 1 / 8
   \<and> \<bar>doubleSum [1 / 16, 1 / 16]\<bar> * 100 = of_int 12 + 1 / 2
   \<and> JSON_parse (totalCost (map Fin [1 / 16, 1 / 16])) = Inr (13 / 100)
   \<and> totalCost (map Fin [1 / 16, 1 / 16]) = ''0.13''"
proof -
  have s: "doubleSum [1 / 16, 1 / 16] = 1 / 8"
    by (simp add: doubleSum_def double_eval)
  then have tie: "\<bar>doubleSum [1 / 16, 1 / 16]\<bar> * 100 = of_int 12 + 1 / 2"
    by simp
  have r: "JSON_parse (totalCost (map Fin [1 / 16, 1 / 16])) = Inr (roundHalf 2 (doubleSum [1 / 16, 1 / 16]))"
    and a: "\<forall>k::int. \<bar>doubleSum [1 / 16, 1 / 16]\<bar> * 100 = of_int k + 1 / 2 \<longrightarrow>
         \<bar>roundHalf 2 (doubleSum [1 / 16, 1 / 16])\<bar> = (of_int k + 1) / 100"
    using total_rounds_double_sum [of "[1 / 16, 1 / 16]"] by blast+
  have "\<bar>roundHalf 2 (doubleSum [1 / 16, 1 / 16])\<bar> = (of_int 12 + 1) / 100"
    using a tie by blast
  moreover have "0 \<le> roundHalf 2 (doubleSum [1 / 16, 1 / 16])"
    by (rule roundHalf_nonneg) (simp add: s)
  ultimately have "roundHalf 2 (doubleSum [1 / 16, 1 / 16]) = 13 / 100"
    by simp
  then have p: "JSON_parse (totalCost (map Fin [1 / 16, 1 / 16])) = Inr (13 / 100)"
    using r by simp
  have "totalCost (map Fin [1 / 16, 1 / 16]) = toFixed 2 (Fin (1 / 8))"
    using reduce_jsAdd [of "[1 / 16, 1 / 16]"] by (simp add: totalCost_def s del: foldl.simps)
  moreover have "toFixed 2 (Fin (1 / 8)) = ''0.13''"
    by code_simp
  ultimately have t: "totalCost (map Fin [1 / 16, 1 / 16]) = ''0.13''"
    by simp
  show ?thesis using s tie p t by blast
qed

text \<open>
  C9: for an array nested to any depth, \<open>flattenArray\<close> returns exactly the
  left-to-right depth-first sequence of its non-array elements, in their order.
\<close>

theorem flattenArray_leaves: "flattenArray ary = concat (map leaves ary)"
  by (rule flattenArray_concat)

theorem flattenArray_leaves_witness:
  "flattenArray [Item (1::nat), Nested [Item 2, Nested [Nested [], Item 3], Item 4], Nested [], Item 5]
   = [1, 2, 3, 4, 5]"
  using flattenArray_leaves [of "[Item (1::nat), Nested [Item 2, Nested [Nested [], Item 3], Item 4], Nested [], Item 5]"]
  by simp
text \<open>
  C10: a falsy rate counts as absent. When no value of the document has a truthy
  \<open>USD\<close> property, \<open>findPrice\<close> returns \<open>undefined\<close>; what it returns is never a
  falsy value other than \<open>undefined\<close>; an object whose \<open>USD\<close> value is falsy is never
  the one selected; and the result is that of the last value, in traversal order,
  among those whose \<open>USD\<close> value is truthy, wherever the others stand.
\<close>

theorem findPrice_falsy_absent:
  "((\<forall>v \<in> set (visitOrder entireObj). \<not> truthy (getProp v ''USD'')) \<longrightarrow>
      findPrice entireObj ''USD'' = JUndefined)
   \<and> (findPrice entireObj ''USD'' = JUndefined \<or> truthy (findPrice entireObj ''USD''))
   \<and> (\<forall>kvs. \<not> truthy (getProp (JObj kvs) ''USD'') \<longrightarrow>
         serializeProperty ''USD'' JUndefined entireObj \<noteq> JObj kvs)
   \<and> findPrice entireObj ''USD''
       = getProp (last (JUndefined # filter (\<lambda>v. truthy (getProp v ''USD'')) (visitOrder entireObj))) ''USD''"
proof (intro conjI impI allI)
  assume "\<forall>v\<in>set (visitOrder entireObj). \<not> truthy (getProp v ''USD'')"
  then have "filter (containsKey ''USD'') (visitOrder entireObj) = []"
    by (simp add: containsKey_def filter_empty_conv)
  then show "findPrice entireObj ''USD'' = JUndefined"
    by (simp add: findPrice_def serialize_last)
next
  show "findPrice entireObj ''USD'' = JUndefined \<or> truthy (findPrice entireObj ''USD'')"
    using found_contains [of "''USD''" entireObj]
    by (auto simp add: findPrice_def containsKey_def)
next
  fix kvs
  assume "\<not> truthy (getProp (JObj kvs) ''USD'')"
  then show "serializeProperty ''USD'' JUndefined entireObj \<noteq> JObj kvs"
    using found_contains [of "''USD''" entireObj] by (auto simp add: containsKey_def)
next
  have "containsKey ''USD'' = (\<lambda>v. truthy (getProp v ''USD''))"
  proof
    fix v show "containsKey ''USD'' v = truthy (getProp v ''USD'')"
      by (cases v) (simp_all add: containsKey_def)
  qed
  then show "findPrice entireObj ''USD''
       = getProp (last (JUndefined # filter (\<lambda>v. truthy (getProp v ''USD'')) (visitOrder entireObj))) ''USD''"
    by (simp add: findPrice_def serialize_last)
qed

theorem findPrice_falsy_absent_witness:
  "list_all (\<lambda>v. \<not> truthy (getProp v ''USD'')) (visitOrder falsyRates)
   \<and> findPrice falsyRates ''USD'' = JUndefined
   \<and> findPrice (JArr [JObj [(''USD'', JStr [])], JObj [(''USD'', JStr ''1.00'')], JObj [(''USD'', JNum 0)]]) ''USD''
       = JStr ''1.00''"
proof -
  have h: "list_all (\<lambda>v. \<not> truthy (getProp v ''USD'')) (visitOrder falsyRates)"
    by (simp add: falsyRates_def)
  then have "\<forall>v \<in> set (visitOrder falsyRates). \<not> truthy (getProp v ''USD'')"
    by (simp add: list_all_iff)
  then have a: "findPrice falsyRates ''USD'' = JUndefined"
    using findPrice_falsy_absent [of falsyRates] by blast
  have b: "findPrice (JArr [JObj [(''USD'', JStr [])], JObj [(''USD'', JStr ''1.00'')], JObj [(''USD'', JNum 0)]]) ''USD''
       = JStr ''1.00''"
    by (simp add: findPrice_def replacer_def)
  show ?thesis using h a b by blast
qed

end
